theory Spec2Isabelle
  imports Main
begin

section \<open>JavaScript values\<close>

text \<open>
  The request handled by the content generator is whatever \<^verbatim>\<open>JSON.parse\<close> produced (plus
  \<^verbatim>\<open>undefined\<close> for a missing argument), so the functions of
  \<^verbatim>\<open>json-processor.ts\<close> are modelled over untyped JavaScript values. An object is an
  association list of its own properties. Numbers are inspected by the code only for
  truthiness and \<^verbatim>\<open>typeof\<close>; the integers stand for them.
\<close>

datatype jsval =
    JUndefined
  | JNull
  | JBool bool
  | JNum int
  | JStr string
  | JArr "jsval list"
  | JObj "(string \<times> jsval) list"

text \<open>
  Exceptions. \<open>TypeError v k\<close> is the error raised when member \<open>k\<close> is read from (or called
  on) the value \<open>v\<close> that does not have it; \<open>Error m\<close> is an \<^verbatim>\<open>Error\<close> object with message
  \<open>m\<close>; \<open>Thrown v\<close> is any thrown value that is not an \<^verbatim>\<open>Error\<close> instance.
\<close>

datatype exn =
    TypeError jsval string
  | Error string
  | Thrown jsval

definition bindE :: "exn + 'a \<Rightarrow> ('a \<Rightarrow> exn + 'b) \<Rightarrow> exn + 'b" where
  "bindE m f = (case m of Inl e \<Rightarrow> Inl e | Inr x \<Rightarrow> f x)"

fun nullish :: "jsval \<Rightarrow> bool" where
  "nullish JUndefined = True"
| "nullish JNull = True"
| "nullish _ = False"

fun truthy :: "jsval \<Rightarrow> bool" where
  "truthy JUndefined = False"
| "truthy JNull = False"
| "truthy (JBool b) = b"
| "truthy (JNum n) = (n \<noteq> 0)"
| "truthy (JStr s) = (s \<noteq> [])"
| "truthy (JArr _) = True"
| "truthy (JObj _) = True"

fun typeof :: "jsval \<Rightarrow> string" where
  "typeof JUndefined = ''undefined''"
| "typeof JNull = ''object''"
| "typeof (JBool _) = ''boolean''"
| "typeof (JNum _) = ''number''"
| "typeof (JStr _) = ''string''"
| "typeof (JArr _) = ''object''"
| "typeof (JObj _) = ''object''"

fun isArray :: "jsval \<Rightarrow> bool" where
  "isArray (JArr _) = True"
| "isArray _ = False"

text \<open>
  \<open>getProp v k\<close> is the value of \<^verbatim>\<open>v.k\<close> for a \<open>v\<close> that is neither \<^verbatim>\<open>null\<close> nor
  \<^verbatim>\<open>undefined\<close>. The code reads only the names title, meta, description, blocks, type,
  content, metadata, language, level, style, blockName, slug, categories and heroImage,
  none of which is a property of a string, number, boolean or array, so those read as
  \<^verbatim>\<open>undefined\<close>. \<open>get\<close> is the read itself, which raises on \<^verbatim>\<open>null\<close> and
  \<^verbatim>\<open>undefined\<close>; \<open>optGet\<close> is the optional chain \<^verbatim>\<open>v?.k\<close>.
\<close>

fun getProp :: "jsval \<Rightarrow> string \<Rightarrow> jsval" where
  "getProp (JObj kvs) k = (case map_of kvs k of None \<Rightarrow> JUndefined | Some v \<Rightarrow> v)"
| "getProp _ k = JUndefined"

definition get :: "jsval \<Rightarrow> string \<Rightarrow> exn + jsval" where
  "get v k = (if nullish v then Inl (TypeError v k) else Inr (getProp v k))"

definition optGet :: "jsval \<Rightarrow> string \<Rightarrow> jsval" where
  "optGet v k = (if nullish v then JUndefined else getProp v k)"

text \<open>\<^verbatim>\<open>a || b\<close> on values.\<close>

definition orElse :: "jsval \<Rightarrow> jsval \<Rightarrow> jsval" where
  "orElse a b = (if truthy a then a else b)"

section \<open>Strings\<close>

text \<open>
  A string is a list of 8-bit characters, read as the code units U+0000 to U+00FF.
  \<open>isSpace\<close> is the class \<^verbatim>\<open>\s\<close> (also what \<^verbatim>\<open>trim\<close> removes) on that range.
\<close>

definition isSpace :: "char \<Rightarrow> bool" where
  "isSpace c = (c \<in> set [CHR 0x09, CHR 0x0A, CHR 0x0B, CHR 0x0C, CHR 0x0D, CHR 0x20, CHR 0xA0])"

definition isLowerAlnum :: "char \<Rightarrow> bool" where
  "isLowerAlnum c = (c \<in> set ''abcdefghijklmnopqrstuvwxyz0123456789'')"

definition toLowerChar :: "char \<Rightarrow> char" where
  "toLowerChar c =
     (let n = (of_char c :: nat)
      in if (65 \<le> n \<and> n \<le> 90) \<or> (192 \<le> n \<and> n \<le> 222 \<and> n \<noteq> 215)
         then char_of (n + 32) else c)"

definition toLowerCase :: "string \<Rightarrow> string" where
  "toLowerCase s = map toLowerChar s"

definition trim :: "string \<Rightarrow> string" where
  "trim s = rev (dropWhile isSpace (rev (dropWhile isSpace s)))"

text \<open>
  \<open>replaceRuns p r s\<close> is \<^verbatim>\<open>s.replace(/P+/g, r)\<close> for a character class \<open>P\<close>: every
  maximal run of characters in the class becomes the single character \<open>r\<close>.
\<close>

function replaceRuns :: "(char \<Rightarrow> bool) \<Rightarrow> char \<Rightarrow> string \<Rightarrow> string" where
  "replaceRuns p r [] = []"
| "replaceRuns p r (c # cs) =
     (if p c then r # replaceRuns p r (dropWhile p cs) else c # replaceRuns p r cs)"
  by pat_completeness auto
termination
  by (relation "measure (\<lambda>(p, r, s). length s)")
     (auto simp: length_dropWhile_le less_Suc_eq_le)

text \<open>
  \<open>stripEnds s\<close> is \<^verbatim>\<open>s.replace(/^-|-$/g, '')\<close>: one hyphen at the start and one hyphen
  at the end of what remains are removed.
\<close>

definition stripEnds :: "string \<Rightarrow> string" where
  "stripEnds s =
     (let s1 = (case s of [] \<Rightarrow> [] | c # cs \<Rightarrow> if c = CHR ''-'' then cs else s)
      in if s1 \<noteq> [] \<and> last s1 = CHR ''-'' then butlast s1 else s1)"

definition isHyphen :: "char \<Rightarrow> bool" where
  "isHyphen c = (c = CHR ''-'')"

text \<open>\<^verbatim>\<open>JSONProcessor.generateSlug\<close>, on a string.\<close>

definition generateSlug :: "string \<Rightarrow> string" where
  "generateSlug title =
     stripEnds
       (replaceRuns isHyphen (CHR ''-'')
         (replaceRuns isSpace (CHR ''-'')
           (filter (\<lambda>c. isLowerAlnum c \<or> isSpace c \<or> isHyphen c) (toLowerCase title))))"

text \<open>
  Strings that derivation leaves alone: only lower-case letters, digits and hyphens, no
  two hyphens in a row, no hyphen at either end.
\<close>

fun noDoubleHyphen :: "string \<Rightarrow> bool" where
  "noDoubleHyphen (a # b # cs) = (\<not> (isHyphen a \<and> isHyphen b) \<and> noDoubleHyphen (b # cs))"
| "noDoubleHyphen _ = True"

definition slugLike :: "string \<Rightarrow> bool" where
  "slugLike s =
     ((\<forall>c \<in> set s. isLowerAlnum c \<or> isHyphen c) \<and> noDoubleHyphen s \<and>
      (s \<noteq> [] \<longrightarrow> \<not> isHyphen (hd s) \<and> \<not> isHyphen (last s)))"

definition stripLead :: "string \<Rightarrow> string" where
  "stripLead s = (case s of [] \<Rightarrow> [] | c # cs \<Rightarrow> if c = CHR ''-'' then cs else s)"

text \<open>Decimal digits of an array index, as a template literal prints it.\<close>

function showNat :: "nat \<Rightarrow> string" where
  "showNat n =
     (if n < 10 then [''0123456789'' ! n]
      else showNat (n div 10) @ [''0123456789'' ! (n mod 10)])"
  by pat_completeness auto
termination
  by (relation "measure id") auto

declare showNat.simps [simp del]

text \<open>\<^verbatim>\<open>xs.join(sep)\<close> and \<^verbatim>\<open>xs.includes(v)\<close> for an array of string literals.\<close>

fun joinWith :: "string \<Rightarrow> string list \<Rightarrow> string" where
  "joinWith sep [] = []"
| "joinWith sep [x] = x"
| "joinWith sep (x # y # ys) = x @ sep @ joinWith sep (y # ys)"

definition arrIncludes :: "string list \<Rightarrow> jsval \<Rightarrow> bool" where
  "arrIncludes xs v = (case v of JStr s \<Rightarrow> s \<in> set xs | _ \<Rightarrow> False)"

text \<open>
  \<^verbatim>\<open>v.trim().length\<close>. The code evaluates it only behind a \<^verbatim>\<open>typeof v !== 'string'\<close>
  test, that is on strings.
\<close>

definition trimLength :: "jsval \<Rightarrow> nat" where
  "trimLength v = (case v of JStr s \<Rightarrow> length (trim s) | _ \<Rightarrow> 0)"

definition elems :: "jsval \<Rightarrow> jsval list" where
  "elems v = (case v of JArr xs \<Rightarrow> xs | _ \<Rightarrow> [])"

section \<open>Schema validation\<close>

record validation =
  valid :: bool
  errors :: "string list"

definition allowedLanguages :: "string list" where
  "allowedLanguages =
     [''typescript'', ''javascript'', ''css'', ''html'', ''python'', ''bash'',
      ''json'', ''yaml'', ''dockerfile'', ''sql'', ''markdown'', ''xml'']"

definition allowedLevels :: "string list" where
  "allowedLevels = [''h2'', ''h3'']"

definition allowedStyles :: "string list" where
  "allowedStyles = [''info'', ''warning'', ''error'', ''success'']"

definition blockTypes :: "string list" where
  "blockTypes = [''paragraph'', ''heading'', ''code'', ''banner'', ''mediaBlock'']"

text \<open>
  The checks of \<^verbatim>\<open>JSONProcessor.validatePostCreationRequest\<close>, each taking the
  \<^verbatim>\<open>errors\<close> array built so far and returning it with its own messages pushed.
  \<open>checkTitle\<close> makes the first read of \<^verbatim>\<open>data\<close> and \<open>validateBlock\<close> the first read of
  a block: these raise on \<^verbatim>\<open>null\<close> and \<^verbatim>\<open>undefined\<close>, and every later read is of a
  value already known to be neither.
\<close>

definition checkTitle :: "jsval \<Rightarrow> string list \<Rightarrow> exn + string list" where
  "checkTitle data errs =
     bindE (get data ''title'') (\<lambda>t.
       Inr (if \<not> truthy t \<or> typeof t \<noteq> ''string'' \<or> trimLength t = 0
            then errs @ [''title is required and must be a non-empty string'']
            else errs))"

definition checkMeta :: "jsval \<Rightarrow> string list \<Rightarrow> string list" where
  "checkMeta data errs =
     (let m = getProp data ''meta''
      in if \<not> truthy m \<or> typeof m \<noteq> ''object''
         then errs @ [''meta is required and must be an object'']
         else
           (let e1 = (if \<not> truthy (getProp m ''title'') \<or> typeof (getProp m ''title'') \<noteq> ''string''
                      then errs @ [''meta.title is required and must be a string'']
                      else errs)
            in if \<not> truthy (getProp m ''description'')
                  \<or> typeof (getProp m ''description'') \<noteq> ''string''
               then e1 @ [''meta.description is required and must be a string'']
               else e1))"

definition checkBlockType :: "string \<Rightarrow> jsval \<Rightarrow> string list \<Rightarrow> string list" where
  "checkBlockType pre ty errs =
     (if \<not> truthy ty \<or> typeof ty \<noteq> ''string''
      then errs @ [pre @ ''.type is required and must be a string'']
      else if \<not> arrIncludes blockTypes ty
      then errs @ [pre @ ''.type must be one of: paragraph, heading, code, banner, mediaBlock'']
      else errs)"

definition checkBlockContent :: "string \<Rightarrow> jsval \<Rightarrow> jsval \<Rightarrow> string list \<Rightarrow> string list" where
  "checkBlockContent pre ty content errs =
     (if ty \<noteq> JStr ''mediaBlock'' \<and> (\<not> truthy content \<or> typeof content \<noteq> ''string'')
      then errs @ [pre @ ''.content is required and must be a string'']
      else if ty = JStr ''mediaBlock'' \<and> typeof content \<noteq> ''string''
      then errs @ [pre @ ''.content must be a string (can be empty for mediaBlock)'']
      else errs)"

definition checkBlockMetadata :: "string \<Rightarrow> jsval \<Rightarrow> string list \<Rightarrow> string list" where
  "checkBlockMetadata pre metadata errs =
     (if truthy metadata \<and> typeof metadata \<noteq> ''object''
      then errs @ [pre @ ''.metadata must be an object if provided'']
      else errs)"

definition checkBlockLanguage :: "string \<Rightarrow> jsval \<Rightarrow> jsval \<Rightarrow> string list \<Rightarrow> string list" where
  "checkBlockLanguage pre ty metadata errs =
     (if ty = JStr ''code'' \<and> truthy (optGet metadata ''language'')
         \<and> \<not> arrIncludes allowedLanguages (getProp metadata ''language'')
      then errs @ [pre @ ''.metadata.language must be one of: '' @ joinWith '', '' allowedLanguages]
      else errs)"

definition checkBlockLevel :: "string \<Rightarrow> jsval \<Rightarrow> jsval \<Rightarrow> string list \<Rightarrow> string list" where
  "checkBlockLevel pre ty metadata errs =
     (if ty = JStr ''heading'' \<and> truthy (optGet metadata ''level'')
         \<and> \<not> arrIncludes allowedLevels (getProp metadata ''level'')
      then errs @ [pre @ ''.metadata.level must be one of: '' @ joinWith '', '' allowedLevels]
      else errs)"

definition checkBlockStyle :: "string \<Rightarrow> jsval \<Rightarrow> jsval \<Rightarrow> string list \<Rightarrow> string list" where
  "checkBlockStyle pre ty metadata errs =
     (if ty = JStr ''banner'' \<and> truthy (optGet metadata ''style'')
         \<and> \<not> arrIncludes allowedStyles (getProp metadata ''style'')
      then errs @ [pre @ ''.metadata.style must be one of: '' @ joinWith '', '' allowedStyles]
      else errs)"

text \<open>
  The body of the \<^verbatim>\<open>forEach\<close> over \<^verbatim>\<open>data.blocks\<close>: the six checks on one block,
  in the order of the source; \<open>pre\<close> is the text \<^verbatim>\<open>blocks[${index}]\<close>.
\<close>

definition validateBlock :: "nat \<Rightarrow> jsval \<Rightarrow> string list \<Rightarrow> exn + string list" where
  "validateBlock index block errs =
     bindE (get block ''type'') (\<lambda>ty.
       let content = getProp block ''content'';
           metadata = getProp block ''metadata'';
           pre = ''blocks['' @ showNat index @ '']'';
           e1 = checkBlockType pre ty errs;
           e2 = checkBlockContent pre ty content e1;
           e3 = checkBlockMetadata pre metadata e2;
           e4 = checkBlockLanguage pre ty metadata e3;
           e5 = checkBlockLevel pre ty metadata e4;
           e6 = checkBlockStyle pre ty metadata e5
       in Inr e6)"

text \<open>
  The messages of the six checks on one block, each check run on an empty array.
\<close>

definition blockMessages :: "nat \<Rightarrow> jsval \<Rightarrow> string list" where
  "blockMessages index block =
     (let ty = getProp block ''type'';
          content = getProp block ''content'';
          metadata = getProp block ''metadata'';
          pre = ''blocks['' @ showNat index @ '']''
      in checkBlockType pre ty [] @ checkBlockContent pre ty content []
         @ checkBlockMetadata pre metadata [] @ checkBlockLanguage pre ty metadata []
         @ checkBlockLevel pre ty metadata [] @ checkBlockStyle pre ty metadata [])"

text \<open>\<^verbatim>\<open>data.blocks.forEach((block, index) => ...)\<close>.\<close>

fun validateBlocks :: "nat \<Rightarrow> jsval list \<Rightarrow> string list \<Rightarrow> exn + string list" where
  "validateBlocks index [] errs = Inr errs"
| "validateBlocks index (b # bs) errs =
     bindE (validateBlock index b errs) (\<lambda>e. validateBlocks (Suc index) bs e)"

definition checkBlocks :: "jsval \<Rightarrow> string list \<Rightarrow> exn + string list" where
  "checkBlocks data errs =
     (let blocks = getProp data ''blocks''
      in if \<not> truthy blocks \<or> \<not> isArray blocks
         then Inr (errs @ [''blocks is required and must be an array''])
         else validateBlocks 0 (elems blocks) errs)"

definition checkSlug :: "jsval \<Rightarrow> string list \<Rightarrow> string list" where
  "checkSlug data errs =
     (let slug = getProp data ''slug''
      in if truthy slug \<and> (typeof slug \<noteq> ''string'' \<or> trimLength slug = 0)
         then errs @ [''slug must be a non-empty string if provided'']
         else errs)"

fun validateCategories :: "nat \<Rightarrow> jsval list \<Rightarrow> string list \<Rightarrow> string list" where
  "validateCategories index [] errs = errs"
| "validateCategories index (c # cs) errs =
     validateCategories (Suc index) cs
       (if typeof c \<noteq> ''string'' \<or> trimLength c = 0
        then errs @ [''categories['' @ showNat index @ ''] must be a non-empty string'']
        else errs)"

definition checkCategories :: "jsval \<Rightarrow> string list \<Rightarrow> string list" where
  "checkCategories data errs =
     (let categories = getProp data ''categories''
      in if truthy categories \<and> \<not> isArray categories
         then errs @ [''categories must be an array if provided'']
         else if truthy categories
         then validateCategories 0 (elems categories) errs
         else errs)"

definition checkHeroImage :: "jsval \<Rightarrow> string list \<Rightarrow> string list" where
  "checkHeroImage data errs =
     (let heroImage = getProp data ''heroImage''
      in if truthy heroImage \<and> typeof heroImage \<noteq> ''boolean''
         then errs @ [''heroImage must be a boolean if provided'']
         else errs)"

definition validatePostCreationRequest :: "jsval \<Rightarrow> exn + validation" where
  "validatePostCreationRequest data =
     bindE (checkTitle data []) (\<lambda>e1.
     bindE (checkBlocks data (checkMeta data e1)) (\<lambda>e3.
       let e6 = checkHeroImage data (checkCategories data (checkSlug data e3))
       in Inr \<lparr>valid = (length e6 = 0), errors = e6\<rparr>))"

section \<open>Compilation to the rich-document tree\<close>

text \<open>
  The nodes that \<^verbatim>\<open>json-processor.ts\<close> builds. Only the members that vary are kept: the
  constant ones (\<^verbatim>\<open>direction\<close>, \<^verbatim>\<open>format\<close>, \<^verbatim>\<open>indent\<close>, \<^verbatim>\<open>version\<close>, ...) are
  left out. A heading and a paragraph have \<^verbatim>\<open>children\<close>; the three block nodes have
  \<^verbatim>\<open>fields\<close> (a banner's nested document is the node list under
  \<^verbatim>\<open>fields.content.root.children\<close>). Text, tag, code and style are the request's values
  as they came.
\<close>

datatype LexicalNode =
    TextNode jsval
  | HeadingNode "LexicalNode list" jsval
  | ParagraphNode "LexicalNode list"
  | CodeBlockNode string jsval string
  | BannerBlockNode jsval "LexicalNode list" string
  | MediaBlockNode string string

datatype LexicalRoot = Root (children: "LexicalNode list")

record MetaData =
  meta_title :: jsval
  meta_description :: jsval
  meta_image :: "string option"

text \<open>\<^verbatim>\<open>PostData\<close>; \<open>pd_status\<close> is the member \<^verbatim>\<open>_status\<close>.\<close>

record PostData =
  pd_slug :: jsval
  pd_status :: string
  pd_title :: jsval
  pd_content :: LexicalRoot
  pd_meta :: MetaData
  pd_heroImage :: "string option"
  pd_relatedPosts :: "string list"
  pd_authors :: "string list option"
  pd_categories :: "string list option"

text \<open>
  \<^verbatim>\<open>generateBlockId\<close> draws from \<^verbatim>\<open>Math.random\<close>. The model takes the sequence of ids
  it returns as a function \<open>gen\<close> and counts the calls: the \<open>n\<close>-th call returns \<open>gen n\<close>.
\<close>

type_synonym idgen = "nat \<Rightarrow> string"

definition createHeading :: "jsval \<Rightarrow> jsval \<Rightarrow> LexicalNode" where
  "createHeading text tag = HeadingNode [TextNode text] tag"

definition createParagraph :: "jsval \<Rightarrow> LexicalNode" where
  "createParagraph text = ParagraphNode [TextNode text]"

definition validLanguage :: "jsval \<Rightarrow> string" where
  "validLanguage language =
     (case language of
        JStr l \<Rightarrow> if l \<in> set allowedLanguages then l else ''javascript''
      | _ \<Rightarrow> ''javascript'')"

definition createCodeBlock :: "idgen \<Rightarrow> nat \<Rightarrow> jsval \<Rightarrow> jsval \<Rightarrow> jsval \<Rightarrow> LexicalNode \<times> nat" where
  "createCodeBlock gen n code language blockName =
     (CodeBlockNode (validLanguage language) code (gen n), Suc n)"

definition createBannerBlock :: "idgen \<Rightarrow> nat \<Rightarrow> jsval \<Rightarrow> jsval \<Rightarrow> jsval \<Rightarrow> LexicalNode \<times> nat" where
  "createBannerBlock gen n text style blockName =
     (BannerBlockNode style [ParagraphNode [TextNode text]] (gen n), Suc n)"

definition createMediaBlock :: "idgen \<Rightarrow> nat \<Rightarrow> jsval \<Rightarrow> LexicalNode \<times> nat" where
  "createMediaBlock gen n blockName = (MediaBlockNode ''random'' (gen n), Suc n)"

text \<open>The body of the \<^verbatim>\<open>forEach\<close> in \<^verbatim>\<open>convertBlocksToLexical\<close>: one block, one node.\<close>

definition convertBlock :: "idgen \<Rightarrow> nat \<Rightarrow> jsval \<Rightarrow> exn + LexicalNode \<times> nat" where
  "convertBlock gen n block =
     bindE (get block ''type'') (\<lambda>ty.
       let content = getProp block ''content'';
           metadata = getProp block ''metadata''
       in if ty = JStr ''heading''
          then Inr (createHeading content (orElse (optGet metadata ''level'') (JStr ''h2'')), n)
          else if ty = JStr ''paragraph''
          then Inr (createParagraph content, n)
          else if ty = JStr ''code''
          then Inr (createCodeBlock gen n content
                      (orElse (optGet metadata ''language'') (JStr ''javascript''))
                      (orElse (optGet metadata ''blockName'') (JStr ''Code Example'')))
          else if ty = JStr ''banner''
          then Inr (createBannerBlock gen n content
                      (orElse (optGet metadata ''style'') (JStr ''info''))
                      (orElse (optGet metadata ''blockName'') (JStr ''Important Note'')))
          else if ty = JStr ''mediaBlock''
          then Inr (createMediaBlock gen n (orElse (optGet metadata ''blockName'') (JStr ''Media'')))
          else Inr (createParagraph content, n))"

fun convertEach ::
  "idgen \<Rightarrow> nat \<Rightarrow> LexicalNode list \<Rightarrow> jsval list \<Rightarrow> exn + LexicalNode list \<times> nat" where
  "convertEach gen n nodes [] = Inr (nodes, n)"
| "convertEach gen n nodes (b # bs) =
     bindE (convertBlock gen n b) (\<lambda>(node, n'). convertEach gen n' (nodes @ [node]) bs)"

text \<open>
  \<^verbatim>\<open>blocks.forEach\<close> exists only on an array: on anything else the call raises.
\<close>

definition convertBlocksToLexical :: "idgen \<Rightarrow> nat \<Rightarrow> jsval \<Rightarrow> exn + LexicalRoot \<times> nat" where
  "convertBlocksToLexical gen n blocks =
     (case blocks of
        JArr bs \<Rightarrow> bindE (convertEach gen n [] bs) (\<lambda>(nodes, n'). Inr (Root nodes, n'))
      | _ \<Rightarrow> Inl (TypeError blocks ''forEach''))"

text \<open>\<^verbatim>\<open>generateSlug(title)\<close> on a value: \<^verbatim>\<open>title.toLowerCase\<close> exists only on a string.\<close>

definition generateSlugOf :: "jsval \<Rightarrow> exn + jsval" where
  "generateSlugOf t =
     (case t of JStr s \<Rightarrow> Inr (JStr (generateSlug s)) | _ \<Rightarrow> Inl (TypeError t ''toLowerCase''))"

definition processPostCreationRequest :: "idgen \<Rightarrow> nat \<Rightarrow> jsval \<Rightarrow> exn + PostData \<times> nat" where
  "processPostCreationRequest gen n request =
     bindE (get request ''title'') (\<lambda>t.
       let slug = getProp request ''slug'';
           m = getProp request ''meta'';
           blocks = getProp request ''blocks'';
           heroImage = getProp request ''heroImage''
       in bindE (if truthy slug then Inr slug else generateSlugOf t) (\<lambda>finalSlug.
          bindE (convertBlocksToLexical gen n blocks) (\<lambda>(content, n').
          bindE (get m ''title'') (\<lambda>mt.
          bindE (get m ''description'') (\<lambda>md.
            Inr (\<lparr>pd_slug = finalSlug,
                  pd_status = ''draft'',
                  pd_title = t,
                  pd_content = content,
                  pd_meta = \<lparr>meta_title = mt, meta_description = md, meta_image = None\<rparr>,
                  pd_heroImage = (if truthy heroImage then Some ''random'' else None),
                  pd_relatedPosts = [],
                  pd_authors = None,
                  pd_categories = None\<rparr>, n'))))))"

section \<open>The API client, at the orchestrator's boundary\<close>

text \<open>
  \<^verbatim>\<open>PayloadCMSContentGeneratorTool\<close> reaches the remote service only through its
  \<^verbatim>\<open>client\<close>. The four asynchronous methods it calls are taken as parameters: each
  runs on the state \<open>'w\<close> of the world (remote service, cached token) and either returns
  or throws. An id is \<^verbatim>\<open>string | null\<close>; a created post is \<^verbatim>\<open>PayloadCMSPost | null\<close>.
\<close>

record PayloadCMSPost =
  post_id :: string
  post_slug :: string
  post_title :: string

record 'w client =
  base_url :: string
  testConnection :: "'w \<Rightarrow> (exn + bool) \<times> 'w"
  getDefaultAuthor :: "'w \<Rightarrow> (exn + string option) \<times> 'w"
  getRandomHeroImage :: "'w \<Rightarrow> (exn + string option) \<times> 'w"
  createPost :: "PostData \<Rightarrow> 'w \<Rightarrow> (exn + PayloadCMSPost option) \<times> 'w"

definition getAdminUrl :: "'w client \<Rightarrow> string \<Rightarrow> string" where
  "getAdminUrl c postId = base_url c @ ''/admin/collections/posts/'' @ postId"

definition getPublicUrl :: "'w client \<Rightarrow> string \<Rightarrow> string" where
  "getPublicUrl c slug = base_url c @ ''/posts/'' @ slug"

text \<open>Truthiness of a \<^verbatim>\<open>string | null\<close>: an id that is there and not empty.\<close>

fun truthyId :: "string option \<Rightarrow> bool" where
  "truthyId None = False"
| "truthyId (Some i) = (i \<noteq> [])"

fun idOf :: "string option \<Rightarrow> string" where
  "idOf None = []"
| "idOf (Some i) = i"

section \<open>The orchestrator\<close>

text \<open>
  \<^verbatim>\<open>processMediaBlocks\<close>. The source maps an asynchronous callback over the sibling nodes
  and awaits the promises together with \<^verbatim>\<open>Promise.all\<close>: the resolution of every
  sibling is started, in document order, and a resolution that throws rejects the walk
  but stops no sibling. Each node is therefore replaced, or left as it is, by its own
  resolution alone. The nodes are mutated in place, so the walk returns the nodes as
  they are once every resolution has finished, together with the first exception, if
  any.
\<close>

fun firstExn :: "exn option \<Rightarrow> exn option \<Rightarrow> exn option" where
  "firstExn (Some e) e2 = Some e"
| "firstExn None e2 = e2"

fun processBlock :: "'w client \<Rightarrow> LexicalNode \<Rightarrow> 'w \<Rightarrow> (LexicalNode \<times> exn option) \<times> 'w"
  and processBlocks :: "'w client \<Rightarrow> LexicalNode list \<Rightarrow> 'w \<Rightarrow> (LexicalNode list \<times> exn option) \<times> 'w"
  where
  "processBlock c (MediaBlockNode media bid) w =
     (if media = ''random''
      then (case getRandomHeroImage c w of
              (Inl e, w') \<Rightarrow> ((MediaBlockNode media bid, Some e), w')
            | (Inr mediaId, w') \<Rightarrow>
                ((if truthyId mediaId then MediaBlockNode (idOf mediaId) bid
                  else MediaBlockNode media bid, None), w'))
      else ((MediaBlockNode media bid, None), w))"
| "processBlock c (HeadingNode cs tag) w =
     (case processBlocks c cs w of ((cs', e), w') \<Rightarrow> ((HeadingNode cs' tag, e), w'))"
| "processBlock c (ParagraphNode cs) w =
     (case processBlocks c cs w of ((cs', e), w') \<Rightarrow> ((ParagraphNode cs', e), w'))"
| "processBlock c (TextNode t) w = ((TextNode t, None), w)"
| "processBlock c (CodeBlockNode l code bid) w = ((CodeBlockNode l code bid, None), w)"
| "processBlock c (BannerBlockNode st cs bid) w = ((BannerBlockNode st cs bid, None), w)"
| "processBlocks c [] w = (([], None), w)"
| "processBlocks c (b # bs) w =
     (case processBlock c b w of
        ((b', e1), w') \<Rightarrow>
          (case processBlocks c bs w' of
             ((bs', e2), w'') \<Rightarrow> ((b' # bs', firstExn e1 e2), w'')))"

definition processMediaBlocks :: "'w client \<Rightarrow> PostData \<Rightarrow> 'w \<Rightarrow> (PostData \<times> exn option) \<times> 'w" where
  "processMediaBlocks c postData w =
     (case processBlocks c (children (pd_content postData)) w of
        ((cs, e), w') \<Rightarrow> ((postData\<lparr>pd_content := Root cs\<rparr>, e), w'))"

text \<open>
  \<^verbatim>\<open>enhancePostDataFromJSON\<close>: whatever is thrown inside is caught and the post data is
  returned as enhanced so far.
\<close>

definition addAuthor :: "string option \<Rightarrow> PostData \<Rightarrow> PostData" where
  "addAuthor authorId enhanced =
     (if truthyId authorId then enhanced\<lparr>pd_authors := Some [idOf authorId]\<rparr> else enhanced)"

definition addHeroImage :: "string option \<Rightarrow> PostData \<Rightarrow> PostData" where
  "addHeroImage heroImageId enhanced =
     (if truthyId heroImageId
      then enhanced\<lparr>pd_heroImage := Some (idOf heroImageId),
                    pd_meta := (pd_meta enhanced)\<lparr>meta_image := Some (idOf heroImageId)\<rparr>\<rparr>
      else enhanced)"

definition enhancePostDataFromJSON :: "'w client \<Rightarrow> PostData \<Rightarrow> jsval \<Rightarrow> 'w \<Rightarrow> PostData \<times> 'w" where
  "enhancePostDataFromJSON c postData request w =
     (case getDefaultAuthor c w of
        (Inl e, w1) \<Rightarrow> (postData, w1)
      | (Inr authorId, w1) \<Rightarrow>
          (let e1 = addAuthor authorId postData
           in case get request ''heroImage'' of
                Inl e \<Rightarrow> (e1, w1)
              | Inr heroImage \<Rightarrow>
                  (if truthy heroImage
                   then (case getRandomHeroImage c w1 of
                           (Inl e, w2) \<Rightarrow> (e1, w2)
                         | (Inr heroImageId, w2) \<Rightarrow>
                             (case processMediaBlocks c (addHeroImage heroImageId e1) w2 of
                                ((e3, _), w3) \<Rightarrow> (e3, w3)))
                   else (case processMediaBlocks c e1 w1 of ((e3, _), w3) \<Rightarrow> (e3, w3)))))"

text \<open>
  \<^verbatim>\<open>ContentGeneratorResult\<close>. The message and the stack of an \<^verbatim>\<open>Error\<close> that the
  JavaScript engine made are whatever the engine wrote, so they are named, not spelled.
\<close>

datatype errtext = Text string | MessageOf exn | StackOf exn

datatype ContentGeneratorResult =
    Success string string string string string
  | Failure errtext errtext

fun errorMessage :: "exn \<Rightarrow> errtext" where
  "errorMessage (Error m) = Text m"
| "errorMessage (TypeError v k) = MessageOf (TypeError v k)"
| "errorMessage (Thrown v) = Text ''Unknown error occurred''"

fun errorDetails :: "exn \<Rightarrow> errtext" where
  "errorDetails (Thrown v) = Text ''No additional details available''"
| "errorDetails e = StackOf e"

text \<open>The \<^verbatim>\<open>try\<close> block of \<^verbatim>\<open>createPostFromJSON\<close>, then the method with its \<^verbatim>\<open>catch\<close>.\<close>

definition createPostFromJSON_try ::
  "'w client \<Rightarrow> idgen \<Rightarrow> nat \<Rightarrow> jsval \<Rightarrow> 'w \<Rightarrow> (exn + ContentGeneratorResult) \<times> 'w" where
  "createPostFromJSON_try c gen n request w =
     (case validatePostCreationRequest request of
        Inl e \<Rightarrow> (Inl e, w)
      | Inr v \<Rightarrow>
          if \<not> valid v
          then (Inr (Failure (Text ''Invalid JSON input'') (Text (joinWith '', '' (errors v)))), w)
          else
            (case testConnection c w of
               (Inl e, w1) \<Rightarrow> (Inl e, w1)
             | (Inr isConnected, w1) \<Rightarrow>
                 if \<not> isConnected
                 then (Inr (Failure (Text ''Could not connect to PayloadCMS Local API'')
                        (Text ''Failed to initialize PayloadCMS Local API. Ensure the tool is running inside the PayloadCMS container.'')), w1)
                 else
                   (case processPostCreationRequest gen n request of
                      Inl e \<Rightarrow> (Inl e, w1)
                    | Inr (postData, n') \<Rightarrow>
                        (case enhancePostDataFromJSON c postData request w1 of
                           (enhancedPostData, w2) \<Rightarrow>
                             (case createPost c enhancedPostData w2 of
                                (Inl e, w3) \<Rightarrow> (Inl e, w3)
                              | (Inr None, w3) \<Rightarrow>
                                  (Inr (Failure (Text ''Failed to create post'')
                                     (Text ''Post creation returned null - check PayloadCMS logs for details'')), w3)
                              | (Inr (Some createdPost), w3) \<Rightarrow>
                                  (Inr (Success (post_id createdPost) (post_slug createdPost)
                                          (post_title createdPost)
                                          (getAdminUrl c (post_id createdPost))
                                          (getPublicUrl c (post_slug createdPost))), w3))))))"

definition createPostFromJSON ::
  "'w client \<Rightarrow> idgen \<Rightarrow> nat \<Rightarrow> jsval \<Rightarrow> 'w \<Rightarrow> (exn + ContentGeneratorResult) \<times> 'w" where
  "createPostFromJSON c gen n request w =
     (case createPostFromJSON_try c gen n request w of
        (Inl error, w') \<Rightarrow> (Inr (Failure (errorMessage error) (errorDetails error)), w')
      | (Inr result, w') \<Rightarrow> (Inr result, w'))"

section \<open>Categories in the API client\<close>

text \<open>
  \<^verbatim>\<open>PayloadCMSClient.getOrCreateCategories\<close> with the two methods it calls. The HTTP
  exchange of each (authenticate if needed, send the request, parse the answer) is a
  parameter: \<open>fetchCategories\<close> is \<^verbatim>\<open>GET /categories?limit=1000\<close> read as
  \<^verbatim>\<open>result.docs || []\<close>, \<open>postCategory\<close> is \<^verbatim>\<open>POST /categories\<close> with a title and a
  slug, answering the created category (or a falsy body). Either may throw.
\<close>

record PayloadCMSCategory =
  cat_id :: string
  cat_title :: string
  cat_slug :: string

record 'w backend =
  fetchCategories :: "'w \<Rightarrow> (exn + PayloadCMSCategory list) \<times> 'w"
  postCategory :: "string \<Rightarrow> string \<Rightarrow> 'w \<Rightarrow> (exn + PayloadCMSCategory option) \<times> 'w"

definition getCategories :: "'w backend \<Rightarrow> 'w \<Rightarrow> PayloadCMSCategory list \<times> 'w" where
  "getCategories b w =
     (case fetchCategories b w of (Inl e, w') \<Rightarrow> ([], w') | (Inr docs, w') \<Rightarrow> (docs, w'))"

definition categorySlug :: "string \<Rightarrow> string" where
  "categorySlug title =
     stripEnds (replaceRuns (\<lambda>c. \<not> isLowerAlnum c) (CHR ''-'') (toLowerCase title))"

definition createCategory :: "'w backend \<Rightarrow> string \<Rightarrow> 'w \<Rightarrow> PayloadCMSCategory option \<times> 'w" where
  "createCategory b title w =
     (case postCategory b title (categorySlug title) w of
        (Inl e, w') \<Rightarrow> (None, w')
      | (Inr category, w') \<Rightarrow> (category, w'))"

text \<open>The \<^verbatim>\<open>for\<close> loop: \<open>existingCategories\<close> is the list fetched before the loop.\<close>

fun categoryLoop ::
  "'w backend \<Rightarrow> PayloadCMSCategory list \<Rightarrow> string list \<Rightarrow> string list \<Rightarrow> 'w \<Rightarrow> string list \<times> 'w" where
  "categoryLoop b existingCategories categoryIds [] w = (categoryIds, w)"
| "categoryLoop b existingCategories categoryIds (title # titles) w =
     (case find (\<lambda>cat. toLowerCase (cat_title cat) = toLowerCase title) existingCategories of
        Some existing \<Rightarrow>
          categoryLoop b existingCategories (categoryIds @ [cat_id existing]) titles w
      | None \<Rightarrow>
          (case createCategory b title w of
             (Some newCategory, w') \<Rightarrow>
               categoryLoop b existingCategories (categoryIds @ [cat_id newCategory]) titles w'
           | (None, w') \<Rightarrow> categoryLoop b existingCategories categoryIds titles w'))"

definition getOrCreateCategories :: "'w backend \<Rightarrow> string list \<Rightarrow> 'w \<Rightarrow> string list \<times> 'w" where
  "getOrCreateCategories b categoryTitles w =
     (case getCategories b w of
        (existingCategories, w1) \<Rightarrow> categoryLoop b existingCategories [] categoryTitles w1)"

text \<open>
  A remote service for running the client: its state is the list of categories it
  stores; a post appends one under a fresh id and answers it.
\<close>

definition storeBackend :: "(PayloadCMSCategory list) backend" where
  "storeBackend =
     \<lparr>fetchCategories = (\<lambda>w. (Inr w, w)),
      postCategory = (\<lambda>title slug w.
        (let c = \<lparr>cat_id = ''c'' @ showNat (length w), cat_title = title, cat_slug = slug\<rparr>
         in (Inr (Some c), w @ [c])))\<rparr>"

section \<open>Inputs for running the model\<close>

definition exampleIds :: idgen where
  "exampleIds k = ''id'' @ showNat k"

definition simpleRequest :: jsval where
  "simpleRequest =
     JObj [(''title'', JStr ''Test''),
           (''meta'', JObj [(''title'', JStr ''Test''), (''description'', JStr ''Test'')]),
           (''blocks'', JArr [JObj [(''type'', JStr ''paragraph''), (''content'', JStr ''Hello'')]])]"

definition flawedRequest :: jsval where
  "flawedRequest =
     JObj [(''title'', JStr '' ''),
           (''meta'', JObj [(''title'', JStr ''Test'')]),
           (''blocks'', JArr [JObj [(''type'', JStr ''unsupported''), (''content'', JStr [])],
                             JNum 5]),
           (''heroImage'', JStr ''yes'')]"

definition rustBlock :: jsval where
  "rustBlock =
     JObj [(''type'', JStr ''code''), (''content'', JStr ''fn main() {}''),
           (''metadata'', JObj [(''language'', JStr ''rust'')])]"

definition quoteBlock :: jsval where
  "quoteBlock = JObj [(''type'', JStr ''quote''), (''content'', JStr ''Hi'')]"

definition mediaBlock :: jsval where
  "mediaBlock = JObj [(''type'', JStr ''mediaBlock''), (''content'', JStr [])]"

definition headingBlock :: jsval where
  "headingBlock = JObj [(''type'', JStr ''heading''), (''content'', JStr ''Intro'')]"

definition heroRequest :: jsval where
  "heroRequest =
     JObj [(''title'', JStr ''Docker Best Practices!''),
           (''meta'', JObj [(''title'', JStr ''Docker''), (''description'', JStr ''Containers'')]),
           (''blocks'', JArr [headingBlock, mediaBlock]),
           (''heroImage'', JBool True)]"

definition heroSubmission :: PostData where
  "heroSubmission =
     \<lparr>pd_slug = JStr ''docker-best-practices'',
      pd_status = ''draft'',
      pd_title = JStr ''Docker Best Practices!'',
      pd_content = Root [HeadingNode [TextNode (JStr ''Intro'')] (JStr ''h2''),
                         MediaBlockNode ''random'' ''id0''],
      pd_meta = \<lparr>meta_title = JStr ''Docker'', meta_description = JStr ''Containers'',
                  meta_image = None\<rparr>,
      pd_heroImage = Some ''random'',
      pd_relatedPosts = [],
      pd_authors = None,
      pd_categories = None\<rparr>"

text \<open>
  Two clients for running the orchestrator. \<open>failingClient\<close> is connected, resolves
  nothing and throws from \<^verbatim>\<open>createPost\<close>. \<open>recordingClient\<close> is connected, resolves
  nothing, and its world is the list of the post data it was asked to create.
\<close>

definition failingClient :: "unit client" where
  "failingClient =
     \<lparr>base_url = ''http://localhost:3000'',
      testConnection = (\<lambda>w. (Inr True, w)),
      getDefaultAuthor = (\<lambda>w. (Inr None, w)),
      getRandomHeroImage = (\<lambda>w. (Inr None, w)),
      createPost = (\<lambda>pd w. (Inl (Error ''API request failed: 500''), w))\<rparr>"

definition recordingClient :: "(PostData list) client" where
  "recordingClient =
     \<lparr>base_url = ''http://localhost:3000'',
      testConnection = (\<lambda>w. (Inr True, w)),
      getDefaultAuthor = (\<lambda>w. (Inr None, w)),
      getRandomHeroImage = (\<lambda>w. (Inr None, w)),
      createPost = (\<lambda>pd w.
        (Inr (Some \<lparr>post_id = ''p'' @ showNat (length w), post_slug = ''slug'',
                     post_title = ''title''\<rparr>), w @ [pd]))\<rparr>"

text \<open>
  \<open>flakyClient\<close> is connected and keeps what it is asked to create; its world is the
  number of calls of \<^verbatim>\<open>getRandomHeroImage\<close> so far and the post data created. The first
  call of \<^verbatim>\<open>getRandomHeroImage\<close> throws, the second finds nothing and every later one
  resolves an id.
\<close>

definition flakyClient :: "(nat \<times> PostData list) client" where
  "flakyClient =
     \<lparr>base_url = ''http://localhost:3000'',
      testConnection = (\<lambda>w. (Inr True, w)),
      getDefaultAuthor = (\<lambda>w. (Inr None, w)),
      getRandomHeroImage = (\<lambda>w.
        (if fst w = 0 then Inl (TypeError (JNum 5) ''filter'')
         else if fst w = 1 then Inr None
         else Inr (Some ''bbbbbbbbbbbbbbbbbbbbbbbb''), (Suc (fst w), snd w))),
      createPost = (\<lambda>pd w.
        (Inr (Some \<lparr>post_id = ''p1'', post_slug = ''slug'', post_title = ''title''\<rparr>),
         (fst w, snd w @ [pd])))\<rparr>"

definition threeMediaNodes :: "LexicalNode list" where
  "threeMediaNodes =
     [MediaBlockNode ''random'' ''a'', MediaBlockNode ''random'' ''b'',
      MediaBlockNode ''random'' ''c'']"

definition threeMediaRequest :: jsval where
  "threeMediaRequest =
     JObj [(''title'', JStr ''Gallery''),
           (''meta'', JObj [(''title'', JStr ''Gallery''), (''description'', JStr ''Pictures'')]),
           (''blocks'', JArr [mediaBlock, mediaBlock, mediaBlock])]"

definition threeMediaCompiled :: PostData where
  "threeMediaCompiled =
     \<lparr>pd_slug = JStr ''gallery'',
      pd_status = ''draft'',
      pd_title = JStr ''Gallery'',
      pd_content = Root [MediaBlockNode ''random'' ''id0'', MediaBlockNode ''random'' ''id1'',
                         MediaBlockNode ''random'' ''id2''],
      pd_meta = \<lparr>meta_title = JStr ''Gallery'', meta_description = JStr ''Pictures'',
                  meta_image = None\<rparr>,
      pd_heroImage = None,
      pd_relatedPosts = [],
      pd_authors = None,
      pd_categories = None\<rparr>"

definition threeMediaSubmitted :: PostData where
  "threeMediaSubmitted =
     threeMediaCompiled
       \<lparr>pd_content := Root [MediaBlockNode ''random'' ''id0'', MediaBlockNode ''random'' ''id1'',
                            MediaBlockNode ''bbbbbbbbbbbbbbbbbbbbbbbb'' ''id2'']\<rparr>"

section \<open>Slug derivation\<close>

lemma toLowerChar_fix: "isLowerAlnum c \<or> isHyphen c \<Longrightarrow> toLowerChar c = c"
  unfolding isLowerAlnum_def isHyphen_def toLowerChar_def by auto

lemma slug_char_not_space: "isLowerAlnum c \<or> isHyphen c \<Longrightarrow> \<not> isSpace c"
  unfolding isLowerAlnum_def isHyphen_def isSpace_def by auto

lemma replaceRuns_none: "\<forall>c \<in> set s. \<not> p c \<Longrightarrow> replaceRuns p r s = s"
  by (induction s) auto

lemma replaceRuns_noDouble_fix:
  "noDoubleHyphen s \<Longrightarrow> replaceRuns isHyphen (CHR ''-'') s = s"
  by (induction s rule: noDoubleHyphen.induct) (auto simp: isHyphen_def)

lemma stripEnds_fix:
  "s \<noteq> [] \<longrightarrow> \<not> isHyphen (hd s) \<and> \<not> isHyphen (last s) \<Longrightarrow> stripEnds s = s"
  by (cases s) (auto simp: stripEnds_def isHyphen_def)

lemma slugLike_fix: "slugLike s \<Longrightarrow> generateSlug s = s"
proof -
  assume h: "slugLike s"
  then have c: "\<forall>c \<in> set s. isLowerAlnum c \<or> isHyphen c"
    by (simp add: slugLike_def)
  have 1: "toLowerCase s = s"
    unfolding toLowerCase_def using c by (simp add: map_idI toLowerChar_fix)
  have 2: "filter (\<lambda>c. isLowerAlnum c \<or> isSpace c \<or> isHyphen c) s = s"
    using c by (auto simp: filter_id_conv)
  have 3: "replaceRuns isSpace (CHR ''-'') s = s"
    using c by (intro replaceRuns_none) (auto simp: slug_char_not_space)
  have 4: "replaceRuns isHyphen (CHR ''-'') s = s"
    using h by (simp add: slugLike_def replaceRuns_noDouble_fix)
  have 5: "stripEnds s = s"
    using h by (intro stripEnds_fix) (simp add: slugLike_def)
  show ?thesis by (simp add: generateSlug_def 1 2 3 4 5)
qed

lemma set_replaceRuns: "set (replaceRuns p r s) \<subseteq> {c \<in> set s. \<not> p c} \<union> {r}"
proof (induction p r s rule: replaceRuns.induct)
  case (1 p r)
  then show ?case by simp
next
  case (2 p r c cs)
  then show ?case using set_dropWhileD by (auto, fastforce)
qed

lemma set_stripEnds: "set (stripEnds s) \<subseteq> set s"
  by (cases s) (auto simp: stripEnds_def Let_def dest: in_set_butlastD)

lemma replaceRuns_hd:
  "replaceRuns p r s \<noteq> [] \<Longrightarrow> s \<noteq> [] \<and> hd (replaceRuns p r s) = (if p (hd s) then r else hd s)"
  by (cases s) auto

lemma noDouble_replaceRuns: "noDoubleHyphen (replaceRuns isHyphen (CHR ''-'') s)"
proof (induction "isHyphen" "CHR ''-''" s rule: replaceRuns.induct)
  case 1
  then show ?case by simp
next
  case (2 c cs)
  show ?case
  proof (cases "isHyphen c")
    case True
    define d where "d = dropWhile isHyphen cs"
    define t where "t = replaceRuns isHyphen (CHR ''-'') d"
    have ih: "noDoubleHyphen t" using 2 True by (simp add: d_def t_def)
    have nd: "d = [] \<or> \<not> isHyphen (hd d)" unfolding d_def by (metis hd_dropWhile)
    have "t = [] \<or> \<not> isHyphen (hd t)"
      using nd replaceRuns_hd [of isHyphen "CHR ''-''" d] by (auto simp: t_def)
    then have "noDoubleHyphen (CHR ''-'' # t)" using ih by (cases t) auto
    then show ?thesis using True by (simp add: d_def t_def)
  next
    case False
    have ih: "noDoubleHyphen (replaceRuns isHyphen (CHR ''-'') cs)" using 2 False by simp
    then show ?thesis using False by (cases "replaceRuns isHyphen (CHR ''-'') cs") auto
  qed
qed

lemma noDouble_tl: "noDoubleHyphen s \<Longrightarrow> noDoubleHyphen (tl s)"
  by (induction s rule: noDoubleHyphen.induct) auto

lemma noDouble_butlast: "noDoubleHyphen s \<Longrightarrow> noDoubleHyphen (butlast s)"
  by (induction s rule: noDoubleHyphen.induct) (auto split: if_splits)

lemma noDouble_hd_tl: "noDoubleHyphen (a # s) \<Longrightarrow> isHyphen a \<Longrightarrow> s \<noteq> [] \<Longrightarrow> \<not> isHyphen (hd s)"
  by (cases s) auto

lemma noDouble_last_butlast:
  "noDoubleHyphen s \<Longrightarrow> s \<noteq> [] \<Longrightarrow> isHyphen (last s) \<Longrightarrow> butlast s \<noteq> []
   \<Longrightarrow> \<not> isHyphen (last (butlast s))"
  by (induction s rule: noDoubleHyphen.induct) (auto split: if_splits)

lemma stripEnds_alt:
  "stripEnds s =
     (if stripLead s \<noteq> [] \<and> last (stripLead s) = CHR ''-''
      then butlast (stripLead s) else stripLead s)"
  by (simp add: stripEnds_def stripLead_def Let_def)

lemma noDouble_stripLead: "noDoubleHyphen s \<Longrightarrow> noDoubleHyphen (stripLead s)"
  using noDouble_tl [of s] by (cases s) (auto simp: stripLead_def)

lemma stripLead_hd:
  "noDoubleHyphen s \<Longrightarrow> stripLead s \<noteq> [] \<Longrightarrow> \<not> isHyphen (hd (stripLead s))"
proof (cases s)
  case Nil
  then show "stripLead s \<noteq> [] \<Longrightarrow> ?thesis" by (simp add: stripLead_def)
next
  case (Cons c cs)
  assume n: "noDoubleHyphen s" and ne: "stripLead s \<noteq> []"
  show ?thesis
  proof (cases "c = CHR ''-''")
    case True
    then have e: "stripLead s = cs" using Cons by (simp add: stripLead_def)
    then have "cs \<noteq> []" using ne by simp
    moreover have "isHyphen c" using True by (simp add: isHyphen_def)
    ultimately have "\<not> isHyphen (hd cs)" using n Cons noDouble_hd_tl [of c cs] by simp
    then show ?thesis using e by simp
  next
    case False
    then show ?thesis using Cons by (simp add: stripLead_def isHyphen_def)
  qed
qed

lemma hd_of_butlast: "butlast s \<noteq> [] \<Longrightarrow> hd (butlast s) = hd s"
  by (cases s) (simp_all split: if_splits)

lemma stripEnds_ends:
  "noDoubleHyphen s \<Longrightarrow> stripEnds s \<noteq> []
   \<Longrightarrow> \<not> isHyphen (hd (stripEnds s)) \<and> \<not> isHyphen (last (stripEnds s))"
  using stripLead_hd [of s] noDouble_last_butlast [OF noDouble_stripLead, of s]
    hd_of_butlast [of "stripLead s"]
  by (auto simp: stripEnds_alt isHyphen_def split: if_splits)

lemma noDouble_stripEnds: "noDoubleHyphen s \<Longrightarrow> noDoubleHyphen (stripEnds s)"
  using noDouble_stripLead [of s] noDouble_butlast [of "stripLead s"]
  by (auto simp: stripEnds_alt)

lemma slugLike_generateSlug: "slugLike (generateSlug s)"
proof -
  let ?f = "filter (\<lambda>c. isLowerAlnum c \<or> isSpace c \<or> isHyphen c) (toLowerCase s)"
  let ?a = "replaceRuns isSpace (CHR ''-'') ?f"
  let ?b = "replaceRuns isHyphen (CHR ''-'') ?a"
  have a: "\<forall>c \<in> set ?a. isLowerAlnum c \<or> isHyphen c"
    using set_replaceRuns [of isSpace "CHR ''-''" ?f] by (auto simp: isHyphen_def)
  have b: "\<forall>c \<in> set ?b. isLowerAlnum c \<or> isHyphen c"
    using set_replaceRuns [of isHyphen "CHR ''-''" ?a] a by (auto simp: isHyphen_def)
  have c: "\<forall>c \<in> set (stripEnds ?b). isLowerAlnum c \<or> isHyphen c"
    using b set_stripEnds [of ?b] by blast
  have n: "noDoubleHyphen ?b" by (rule noDouble_replaceRuns)
  show ?thesis
    unfolding slugLike_def generateSlug_def
    using c noDouble_stripEnds [OF n] stripEnds_ends [OF n] by blast
qed

text \<open>
  Claim C7. Slug derivation returns an already slug-like string unchanged, and what it
  returns is always slug-like, so that deriving twice is deriving once; the title
  "Docker Best Practices!" derives the slug "docker-best-practices".
\<close>

theorem generateSlug_slug_unchanged:
  "(slugLike s \<longrightarrow> generateSlug s = s)
   \<and> slugLike (generateSlug t)
   \<and> generateSlug (generateSlug t) = generateSlug t
   \<and> generateSlug ''Docker Best Practices!'' = ''docker-best-practices''"
proof (intro conjI impI)
  assume "slugLike s"
  then show "generateSlug s = s" by (rule slugLike_fix)
next
  show "slugLike (generateSlug t)" by (rule slugLike_generateSlug)
next
  show "generateSlug (generateSlug t) = generateSlug t"
    by (rule slugLike_fix [OF slugLike_generateSlug])
next
  show "generateSlug ''Docker Best Practices!'' = ''docker-best-practices''"
    by code_simp
qed

theorem generateSlug_slug_unchanged_witness:
  "slugLike ''docker-best-practices''
   \<and> generateSlug ''docker-best-practices'' = ''docker-best-practices''
   \<and> slugLike (generateSlug ''  --Hello,   World--  '')"
proof -
  have s: "slugLike ''docker-best-practices''" by code_simp
  from generateSlug_slug_unchanged [of "''docker-best-practices''" "''  --Hello,   World--  ''"] s
  show ?thesis by blast
qed

lemma generateSlug_hello_world: "generateSlug ''  --Hello,   World--  '' = ''hello-world''"
  by code_simp

section \<open>Repeated titles in one call of getOrCreateCategories\<close>

text \<open>
  Claim C6. Against a service with no categories, the call
  \<^verbatim>\<open>getOrCreateCategories(["Docker","docker"])\<close> should create at most one category
  titled "docker" up to case. The code looks every title up in the list it fetched
  before the loop, so the second title is not found and a second category is posted.
\<close>

theorem getOrCreateCategories_Docker_docker:
  "getOrCreateCategories storeBackend [''Docker'', ''docker''] [] =
     ([''c0'', ''c1''],
      [\<lparr>cat_id = ''c0'', cat_title = ''Docker'', cat_slug = ''docker''\<rparr>,
       \<lparr>cat_id = ''c1'', cat_title = ''docker'', cat_slug = ''docker''\<rparr>])"
  by code_simp

section \<open>Validation: what is raised and what is reported\<close>

lemma get_Inr: "\<not> nullish v \<Longrightarrow> get v k = Inr (getProp v k)"
  by (simp add: get_def)

lemma get_Inr_iff: "get v k = Inr x \<longleftrightarrow> \<not> nullish v \<and> x = getProp v k"
  by (auto simp: get_def)

lemma checkTitle_append:
  "\<not> nullish data \<Longrightarrow> \<exists>t. checkTitle data [] = Inr t \<and> (\<forall>errs. checkTitle data errs = Inr (errs @ t))"
  by (simp add: checkTitle_def bindE_def get_Inr)

lemma checkTitle_Inr: "checkTitle data errs = Inr e \<Longrightarrow> \<not> nullish data"
  by (auto simp: checkTitle_def bindE_def get_def split: if_splits)

lemma checkMeta_append: "checkMeta data errs = errs @ checkMeta data []"
  by (simp add: checkMeta_def Let_def)

lemma checkSlug_append: "checkSlug data errs = errs @ checkSlug data []"
  by (simp add: checkSlug_def Let_def)

lemma checkHeroImage_append: "checkHeroImage data errs = errs @ checkHeroImage data []"
  by (simp add: checkHeroImage_def Let_def)

lemma validateCategories_append:
  "validateCategories i cs errs = errs @ validateCategories i cs []"
proof (induction cs arbitrary: i errs)
  case Nil
  then show ?case by simp
next
  case (Cons c cs)
  show ?case
    using Cons [of "Suc i" "errs @ [''categories['' @ showNat i @ ''] must be a non-empty string'']"]
      Cons [of "Suc i" "[''categories['' @ showNat i @ ''] must be a non-empty string'']"]
      Cons [of "Suc i" errs]
    by simp
qed

lemma checkCategories_append: "checkCategories data errs = errs @ checkCategories data []"
  using validateCategories_append [of 0 _ errs]
  by (simp add: checkCategories_def Let_def)

lemma checkBlockType_append: "checkBlockType pre ty errs = errs @ checkBlockType pre ty []"
  by (simp add: checkBlockType_def)

lemma checkBlockContent_append:
  "checkBlockContent pre ty c errs = errs @ checkBlockContent pre ty c []"
  by (simp add: checkBlockContent_def)

lemma checkBlockMetadata_append:
  "checkBlockMetadata pre m errs = errs @ checkBlockMetadata pre m []"
  by (simp add: checkBlockMetadata_def)

lemma checkBlockLanguage_append:
  "checkBlockLanguage pre ty m errs = errs @ checkBlockLanguage pre ty m []"
  by (simp add: checkBlockLanguage_def)

lemma checkBlockLevel_append:
  "checkBlockLevel pre ty m errs = errs @ checkBlockLevel pre ty m []"
  by (simp add: checkBlockLevel_def)

lemma checkBlockStyle_append:
  "checkBlockStyle pre ty m errs = errs @ checkBlockStyle pre ty m []"
  by (simp add: checkBlockStyle_def)

lemma validateBlock_eq:
  "\<not> nullish b \<Longrightarrow> validateBlock i b errs = Inr (errs @ blockMessages i b)"
proof -
  assume n: "\<not> nullish b"
  let ?ty = "getProp b ''type''" and ?c = "getProp b ''content''" and ?m = "getProp b ''metadata''"
  let ?pre = "''blocks['' @ showNat i @ '']''"
  have "validateBlock i b errs =
      Inr (checkBlockStyle ?pre ?ty ?m (checkBlockLevel ?pre ?ty ?m (checkBlockLanguage ?pre ?ty ?m
          (checkBlockMetadata ?pre ?m (checkBlockContent ?pre ?ty ?c (checkBlockType ?pre ?ty errs))))))"
    using n by (simp add: validateBlock_def bindE_def get_Inr Let_def)
  also have "\<dots> = Inr (errs @ blockMessages i b)"
    unfolding blockMessages_def Let_def
    by (subst checkBlockStyle_append, subst checkBlockLevel_append,
        subst checkBlockLanguage_append, subst checkBlockMetadata_append,
        subst checkBlockContent_append, subst checkBlockType_append) simp
  finally show ?thesis .
qed

lemma validateBlock_append:
  "\<not> nullish b \<Longrightarrow> \<exists>m. validateBlock i b [] = Inr m \<and> (\<forall>errs. validateBlock i b errs = Inr (errs @ m))"
  by (simp add: validateBlock_eq)

lemma validateBlock_Inr: "validateBlock i b errs = Inr e \<Longrightarrow> \<not> nullish b"
  by (cases "nullish b") (simp_all add: validateBlock_def bindE_def get_def)

lemma validateBlocks_append:
  "\<forall>b \<in> set bs. \<not> nullish b \<Longrightarrow>
     \<exists>ms. length ms = length bs
        \<and> (\<forall>j < length bs. validateBlock (i + j) (bs ! j) [] = Inr (ms ! j))
        \<and> (\<forall>errs. validateBlocks i bs errs = Inr (errs @ concat ms))"
proof (induction bs arbitrary: i)
  case Nil
  then show ?case by simp
next
  case (Cons b bs)
  from Cons.prems have nb: "\<not> nullish b" by simp
  from validateBlock_append [OF nb, of i] obtain m where
    m: "validateBlock i b [] = Inr m" "\<forall>errs. validateBlock i b errs = Inr (errs @ m)" by blast
  from Cons.IH [of "Suc i"] Cons.prems obtain ms where
    ms: "length ms = length bs"
        "\<forall>j < length bs. validateBlock (Suc i + j) (bs ! j) [] = Inr (ms ! j)"
        "\<forall>errs. validateBlocks (Suc i) bs errs = Inr (errs @ concat ms)" by auto
  have 1: "length (m # ms) = length (b # bs)" using ms by simp
  have 2: "\<forall>j < length (b # bs). validateBlock (i + j) ((b # bs) ! j) [] = Inr ((m # ms) ! j)"
  proof (intro allI impI)
    fix j assume "j < length (b # bs)"
    then show "validateBlock (i + j) ((b # bs) ! j) [] = Inr ((m # ms) ! j)"
      using m ms by (cases j) auto
  qed
  have 3: "\<forall>errs. validateBlocks i (b # bs) errs = Inr (errs @ concat (m # ms))"
    using m ms by (simp add: bindE_def)
  show ?case using 1 2 3 by blast
qed

lemma validateBlocks_Inr:
  "validateBlocks i bs errs = Inr e \<Longrightarrow> \<forall>b \<in> set bs. \<not> nullish b"
proof (induction bs arbitrary: i errs)
  case Nil
  then show ?case by simp
next
  case (Cons b bs)
  then show ?case
    by (auto simp: bindE_def split: sum.splits dest: validateBlock_Inr)
qed

lemma checkBlocks_append:
  "\<forall>b \<in> set (elems (getProp data ''blocks'')). \<not> nullish b \<Longrightarrow>
     \<exists>bl. checkBlocks data [] = Inr bl \<and> (\<forall>errs. checkBlocks data errs = Inr (errs @ bl))"
  using validateBlocks_append [of "elems (getProp data ''blocks'')" 0]
  by (auto simp: checkBlocks_def Let_def)

lemma checkBlocks_Inr:
  "checkBlocks data errs = Inr e \<Longrightarrow> \<forall>b \<in> set (elems (getProp data ''blocks'')). \<not> nullish b"
  by (cases "getProp data ''blocks''")
     (auto simp: checkBlocks_def Let_def elems_def split: if_splits dest: validateBlocks_Inr)

lemma validate_Inr_nonnull:
  "validatePostCreationRequest data = Inr r \<Longrightarrow>
     \<not> nullish data \<and> (\<forall>b \<in> set (elems (getProp data ''blocks'')). \<not> nullish b)"
  by (auto simp: validatePostCreationRequest_def bindE_def Let_def split: sum.splits
      dest: checkTitle_Inr checkBlocks_Inr)

lemma validate_errors_all:
  assumes "\<not> nullish data" and "\<forall>b \<in> set (elems (getProp data ''blocks'')). \<not> nullish b"
  shows "\<exists>r t bl. validatePostCreationRequest data = Inr r \<and> valid r = (errors r = [])
     \<and> checkTitle data [] = Inr t \<and> checkBlocks data [] = Inr bl
     \<and> errors r = t @ checkMeta data [] @ bl @ checkSlug data []
                   @ checkCategories data [] @ checkHeroImage data []"
proof -
  from checkTitle_append [OF assms(1)] obtain t where
    t: "checkTitle data [] = Inr t" "\<forall>errs. checkTitle data errs = Inr (errs @ t)" by blast
  from checkBlocks_append [OF assms(2)] obtain bl where
    bl: "checkBlocks data [] = Inr bl" "\<forall>errs. checkBlocks data errs = Inr (errs @ bl)" by blast
  show ?thesis
    using t bl
    by (simp add: validatePostCreationRequest_def bindE_def Let_def
        checkMeta_append [of data "t"] checkSlug_append [of data "_ @ _"]
        checkCategories_append [of data "_ @ _"] checkHeroImage_append [of data "_ @ _"])
qed


lemma validateBlocks_eq:
  "\<forall>b \<in> set bs. \<not> nullish b \<Longrightarrow>
   validateBlocks i bs errs =
     Inr (errs @ concat (map (\<lambda>(j, b). blockMessages j b) (enumerate i bs)))"
proof (induction bs arbitrary: i errs)
  case Nil
  then show ?case by simp
next
  case (Cons b bs)
  then show ?case by (simp add: bindE_def validateBlock_eq)
qed

lemma checkBlocks_array:
  "isArray (getProp data ''blocks'') \<Longrightarrow>
   \<forall>b \<in> set (elems (getProp data ''blocks'')). \<not> nullish b \<Longrightarrow>
   checkBlocks data errs =
     Inr (errs @ concat (map (\<lambda>(j, b). blockMessages j b)
                          (enumerate 0 (elems (getProp data ''blocks'')))))"
  by (cases "getProp data ''blocks''") (simp_all add: checkBlocks_def validateBlocks_eq)

text \<open>
  Claim C3, as stated, at the input \<^verbatim>\<open>null\<close>: the first read, \<^verbatim>\<open>data.title\<close>, raises
  a TypeError, so no structured result is returned.
\<close>

theorem validate_null_raises:
  "validatePostCreationRequest JNull = Inl (TypeError JNull ''title'')"
  by (simp add: validatePostCreationRequest_def checkTitle_def get_def bindE_def)

text \<open>
  Claim C3, amended. For every input other than \<^verbatim>\<open>null\<close> and \<^verbatim>\<open>undefined\<close> whose
  \<^verbatim>\<open>blocks\<close> array (if it is one) has no \<^verbatim>\<open>null\<close> or \<^verbatim>\<open>undefined\<close> element,
  validation returns a result without raising; \<^verbatim>\<open>valid\<close> holds exactly when
  \<^verbatim>\<open>errors\<close> is empty; and \<^verbatim>\<open>errors\<close> is the messages of the title check, the meta
  check, the blocks check, the slug check, the categories check and the heroImage check,
  each as it reports when run alone, one after the other. Within the blocks check the
  messages of every block are there, block after block.
\<close>

theorem validate_accumulates_all:
  assumes "\<not> nullish data"
    and "\<forall>b \<in> set (elems (getProp data ''blocks'')). \<not> nullish b"
  shows "\<exists>r t bl. validatePostCreationRequest data = Inr r \<and> valid r = (errors r = [])
     \<and> checkTitle data [] = Inr t \<and> checkBlocks data [] = Inr bl
     \<and> errors r = t @ checkMeta data [] @ bl @ checkSlug data []
                   @ checkCategories data [] @ checkHeroImage data []
     \<and> (isArray (getProp data ''blocks'') \<longrightarrow>
          bl = concat (map (\<lambda>(i, b). blockMessages i b)
                        (enumerate 0 (elems (getProp data ''blocks'')))))"
proof -
  from validate_errors_all [OF assms] obtain r t bl where
    r: "validatePostCreationRequest data = Inr r" "valid r = (errors r = [])"
       "checkTitle data [] = Inr t" "checkBlocks data [] = Inr bl"
       "errors r = t @ checkMeta data [] @ bl @ checkSlug data []
                   @ checkCategories data [] @ checkHeroImage data []"
    by blast
  have "isArray (getProp data ''blocks'') \<longrightarrow>
          bl = concat (map (\<lambda>(i, b). blockMessages i b)
                        (enumerate 0 (elems (getProp data ''blocks''))))"
    using r(4) assms(2) by (auto simp: checkBlocks_array)
  then show ?thesis using r by blast
qed

theorem validate_accumulates_all_witness:
  "\<not> nullish flawedRequest
   \<and> length (elems (getProp flawedRequest ''blocks'')) = 2
   \<and> \<not> nullish (elems (getProp flawedRequest ''blocks'') ! 0)
   \<and> \<not> nullish (elems (getProp flawedRequest ''blocks'') ! 1)
   \<and> (\<exists>r. validatePostCreationRequest flawedRequest = Inr r \<and> valid r = (errors r = []))"
  using validate_accumulates_all [of flawedRequest]
  by (auto simp: flawedRequest_def elems_def)

lemma validate_flawedRequest:
  "validatePostCreationRequest flawedRequest =
     Inr \<lparr>valid = False,
          errors =
            [''title is required and must be a non-empty string'',
             ''meta.description is required and must be a string'',
             ''blocks[0].type must be one of: paragraph, heading, code, banner, mediaBlock'',
             ''blocks[0].content is required and must be a string'',
             ''blocks[1].type is required and must be a string'',
             ''blocks[1].content is required and must be a string'',
             ''heroImage must be a boolean if provided'']\<rparr>"
  by code_simp

section \<open>Compilation: one node per block\<close>

lemma convertBlock_ok: "\<not> nullish b \<Longrightarrow> \<exists>node n'. convertBlock gen n b = Inr (node, n')"
  by (simp add: convertBlock_def bindE_def get_Inr Let_def createCodeBlock_def
      createBannerBlock_def createMediaBlock_def)

lemma convertEach_ok:
  "\<forall>b \<in> set bs. \<not> nullish b \<Longrightarrow>
     \<exists>nodes' n'. convertEach gen n nodes bs = Inr (nodes @ nodes', n')
        \<and> length nodes' = length bs
        \<and> (\<forall>i < length bs. \<exists>k k'. convertBlock gen k (bs ! i) = Inr (nodes' ! i, k'))"
proof (induction bs arbitrary: n nodes)
  case Nil
  then show ?case by simp
next
  case (Cons b bs)
  from Cons.prems have "\<not> nullish b" by simp
  from convertBlock_ok [OF this, of gen n] obtain node n1 where
    b: "convertBlock gen n b = Inr (node, n1)" by blast
  from Cons.IH [of n1 "nodes @ [node]"] Cons.prems obtain ns n' where
    ns: "convertEach gen n1 (nodes @ [node]) bs = Inr ((nodes @ [node]) @ ns, n')"
        "length ns = length bs"
        "\<forall>i < length bs. \<exists>k k'. convertBlock gen k (bs ! i) = Inr (ns ! i, k')" by auto
  have 1: "convertEach gen n nodes (b # bs) = Inr (nodes @ (node # ns), n')"
    using b ns(1) by (simp add: bindE_def)
  have 2: "length (node # ns) = length (b # bs)" using ns(2) by simp
  have 3: "\<forall>i < length (b # bs). \<exists>k k'. convertBlock gen k ((b # bs) ! i) = Inr ((node # ns) ! i, k')"
  proof (intro allI impI)
    fix i assume "i < length (b # bs)"
    then show "\<exists>k k'. convertBlock gen k ((b # bs) ! i) = Inr ((node # ns) ! i, k')"
      using b ns(3) by (cases i) auto
  qed
  show ?case using 1 2 3 by blast
qed

lemma convertEach_Inr_nonnull:
  "convertEach gen n nodes bs = Inr r \<Longrightarrow> \<forall>b \<in> set bs. \<not> nullish b"
proof (induction bs arbitrary: n nodes)
  case Nil
  then show ?case by simp
next
  case (Cons b bs)
  then show ?case
    by (auto simp: bindE_def convertBlock_def get_def split: sum.splits if_splits)
qed

lemma convertBlocks_ok:
  "\<forall>b \<in> set bs. \<not> nullish b \<Longrightarrow>
     \<exists>nodes n'. convertBlocksToLexical gen n (JArr bs) = Inr (Root nodes, n')
        \<and> length nodes = length bs
        \<and> (\<forall>i < length bs. \<exists>k k'. convertBlock gen k (bs ! i) = Inr (nodes ! i, k'))"
  using convertEach_ok [of bs gen n "[]"]
  by (auto simp: convertBlocksToLexical_def bindE_def)

lemma convertBlock_unknown:
  "\<not> nullish b \<Longrightarrow> \<not> arrIncludes blockTypes (getProp b ''type'')
   \<Longrightarrow> convertBlock gen k b = Inr (ParagraphNode [TextNode (getProp b ''content'')], k)"
  by (auto simp: convertBlock_def bindE_def get_Inr Let_def createParagraph_def
      arrIncludes_def blockTypes_def)

lemma convertBlock_code:
  "\<not> nullish b \<Longrightarrow> getProp b ''type'' = JStr ''code'' \<Longrightarrow>
   convertBlock gen k b =
     Inr (CodeBlockNode
            (validLanguage (orElse (optGet (getProp b ''metadata'') ''language'') (JStr ''javascript'')))
            (getProp b ''content'') (gen k), Suc k)"
  by (simp add: convertBlock_def bindE_def get_Inr Let_def createCodeBlock_def)

lemma javascript_allowed: "''javascript'' \<in> set allowedLanguages"
  by (simp add: allowedLanguages_def)

lemma allowed_nonempty: "[] \<notin> set allowedLanguages"
  by (simp add: allowedLanguages_def)

lemma validLanguage_supported: "arrIncludes allowedLanguages v \<Longrightarrow> JStr (validLanguage v) = v"
  by (cases v) (simp_all add: arrIncludes_def validLanguage_def)

lemma validLanguage_unsupported: "\<not> arrIncludes allowedLanguages v \<Longrightarrow> validLanguage v = ''javascript''"
  by (cases v) (simp_all add: arrIncludes_def validLanguage_def)

lemma arrIncludes_truthy: "arrIncludes allowedLanguages v \<Longrightarrow> truthy v"
  using allowed_nonempty by (cases v) (auto simp: arrIncludes_def)

lemma requested_language:
  "validLanguage (orElse l (JStr ''javascript'')) =
     (if arrIncludes allowedLanguages l then validLanguage l else ''javascript'')"
proof (cases "arrIncludes allowedLanguages l")
  case True
  then show ?thesis using arrIncludes_truthy [OF True] by (simp add: orElse_def)
next
  case False
  have "validLanguage (JStr ''javascript'') = ''javascript''"
    using javascript_allowed by (simp add: validLanguage_def)
  then show ?thesis using False validLanguage_unsupported [OF False] by (simp add: orElse_def)
qed

text \<open>
  Claim C4. A list of N content blocks compiles to a root with exactly N children, and
  the i-th child is the node that the conversion of one block produces from the i-th
  block: nothing is dropped, duplicated or reordered.
\<close>

theorem convertBlocksToLexical_one_node_per_block:
  assumes "\<forall>b \<in> set blocks. \<not> nullish b"
  shows "\<exists>nodes n'. convertBlocksToLexical gen n (JArr blocks) = Inr (Root nodes, n')
        \<and> length nodes = length blocks
        \<and> (\<forall>i < length blocks. \<exists>k k'. convertBlock gen k (blocks ! i) = Inr (nodes ! i, k'))"
  using assms by (rule convertBlocks_ok)

theorem convertBlocksToLexical_one_node_per_block_witness:
  "\<not> nullish headingBlock \<and> \<not> nullish rustBlock \<and> \<not> nullish mediaBlock
   \<and> (\<exists>nodes n'. convertBlocksToLexical exampleIds 0 (JArr [headingBlock, rustBlock, mediaBlock])
                     = Inr (Root nodes, n')
        \<and> length nodes = 3)"
  using convertBlocksToLexical_one_node_per_block [of "[headingBlock, rustBlock, mediaBlock]" exampleIds 0]
  by (auto simp: headingBlock_def rustBlock_def mediaBlock_def)

lemma convert_three_blocks:
  "convertBlocksToLexical exampleIds 0 (JArr [headingBlock, rustBlock, mediaBlock]) =
     Inr (Root [HeadingNode [TextNode (JStr ''Intro'')] (JStr ''h2''),
                CodeBlockNode ''javascript'' (JStr ''fn main() {}'') ''id0'',
                MediaBlockNode ''random'' ''id1''], 2)"
  by code_simp

text \<open>
  Claim C10. A block whose type is none of the five known types is neither refused nor
  dropped: its node, at its own position, is a paragraph wrapping the block's content as
  it is.
\<close>

theorem unknown_type_becomes_paragraph:
  assumes "\<forall>b \<in> set blocks. \<not> nullish b"
    and "i < length blocks"
    and "\<not> arrIncludes blockTypes (getProp (blocks ! i) ''type'')"
  shows "\<exists>nodes n'. convertBlocksToLexical gen n (JArr blocks) = Inr (Root nodes, n')
        \<and> length nodes = length blocks
        \<and> nodes ! i = ParagraphNode [TextNode (getProp (blocks ! i) ''content'')]"
proof -
  from convertBlocks_ok [OF assms(1), of gen n] obtain nodes n' where
    r: "convertBlocksToLexical gen n (JArr blocks) = Inr (Root nodes, n')"
       "length nodes = length blocks"
       "\<forall>i < length blocks. \<exists>k k'. convertBlock gen k (blocks ! i) = Inr (nodes ! i, k')"
    by blast
  from r(3) assms(2) obtain k k' where
    "convertBlock gen k (blocks ! i) = Inr (nodes ! i, k')" by blast
  moreover have "\<not> nullish (blocks ! i)" using assms(1,2) by simp
  ultimately have "nodes ! i = ParagraphNode [TextNode (getProp (blocks ! i) ''content'')]"
    using convertBlock_unknown [OF _ assms(3), of gen k] by simp
  then show ?thesis using r by blast
qed

theorem unknown_type_becomes_paragraph_witness:
  "\<not> nullish headingBlock \<and> \<not> nullish quoteBlock
   \<and> 1 < length [headingBlock, quoteBlock]
   \<and> \<not> arrIncludes blockTypes (getProp ([headingBlock, quoteBlock] ! 1) ''type'')
   \<and> (\<exists>nodes n'. convertBlocksToLexical exampleIds 0 (JArr [headingBlock, quoteBlock])
                     = Inr (Root nodes, n')
        \<and> length nodes = 2
        \<and> nodes ! 1 = ParagraphNode [TextNode (JStr ''Hi'')])"
  using unknown_type_becomes_paragraph [of "[headingBlock, quoteBlock]" 1 exampleIds 0]
  by (auto simp: headingBlock_def quoteBlock_def arrIncludes_def blockTypes_def)

text \<open>
  Claim C8. A code block whose \<^verbatim>\<open>metadata.language\<close> is outside the supported set
  compiles to a code node whose language is the default, javascript, and not the value
  requested; a supported language is kept as it is.
\<close>

theorem code_language_defaulted:
  assumes "\<not> nullish b" and "getProp b ''type'' = JStr ''code''"
  shows "\<exists>lang. convertBlock gen k b = Inr (CodeBlockNode lang (getProp b ''content'') (gen k), Suc k)
       \<and> (\<not> arrIncludes allowedLanguages (optGet (getProp b ''metadata'') ''language'')
            \<longrightarrow> lang = ''javascript'' \<and> JStr lang \<noteq> optGet (getProp b ''metadata'') ''language'')
       \<and> (arrIncludes allowedLanguages (optGet (getProp b ''metadata'') ''language'')
            \<longrightarrow> JStr lang = optGet (getProp b ''metadata'') ''language'')"
proof -
  let ?l = "optGet (getProp b ''metadata'') ''language''"
  let ?lang = "validLanguage (orElse ?l (JStr ''javascript''))"
  have 1: "convertBlock gen k b = Inr (CodeBlockNode ?lang (getProp b ''content'') (gen k), Suc k)"
    using assms by (rule convertBlock_code)
  have 2: "\<not> arrIncludes allowedLanguages ?l \<longrightarrow> ?lang = ''javascript'' \<and> JStr ?lang \<noteq> ?l"
  proof
    assume n: "\<not> arrIncludes allowedLanguages ?l"
    then have j: "?lang = ''javascript''" by (simp add: requested_language)
    have "arrIncludes allowedLanguages (JStr ''javascript'')"
      using javascript_allowed by (simp add: arrIncludes_def)
    then have "JStr ''javascript'' \<noteq> ?l"
      using n by auto
    then show "?lang = ''javascript'' \<and> JStr ?lang \<noteq> ?l" using j by simp
  qed
  have 3: "arrIncludes allowedLanguages ?l \<longrightarrow> JStr ?lang = ?l"
    by (simp add: requested_language validLanguage_supported)
  show ?thesis using 1 2 3 by blast
qed


theorem code_language_defaulted_witness:
  "\<not> nullish rustBlock \<and> getProp rustBlock ''type'' = JStr ''code''
   \<and> \<not> arrIncludes allowedLanguages (optGet (getProp rustBlock ''metadata'') ''language'')
   \<and> convertBlock exampleIds 0 rustBlock =
       Inr (CodeBlockNode ''javascript'' (JStr ''fn main() {}'') ''id0'', 1)"
  using code_language_defaulted [of rustBlock exampleIds 0]
  by (auto simp: rustBlock_def arrIncludes_def allowedLanguages_def optGet_def exampleIds_def
      showNat.simps)

section \<open>Validated requests compile\<close>

lemma checkTitle_empty:
  "checkTitle data [] = Inr [] \<Longrightarrow> \<exists>s. getProp data ''title'' = JStr s"
  by (cases "getProp data ''title''")
     (auto simp: checkTitle_def bindE_def get_def split: if_splits)

lemma checkMeta_empty: "checkMeta data [] = [] \<Longrightarrow> \<not> nullish (getProp data ''meta'')"
  by (cases "getProp data ''meta''") (auto simp: checkMeta_def Let_def split: if_splits)

lemma checkBlocks_empty:
  "checkBlocks data [] = Inr [] \<Longrightarrow>
     \<exists>bs. getProp data ''blocks'' = JArr bs \<and> (\<forall>b \<in> set bs. \<not> nullish b)"
  by (cases "getProp data ''blocks''")
     (auto simp: checkBlocks_def Let_def elems_def split: if_splits dest: validateBlocks_Inr)

lemma checkHeroImage_empty:
  "checkHeroImage data [] = [] \<Longrightarrow> truthy (getProp data ''heroImage'')
   \<Longrightarrow> getProp data ''heroImage'' = JBool True"
  by (cases "getProp data ''heroImage''") (auto simp: checkHeroImage_def Let_def split: if_splits)

lemma valid_request_shape:
  assumes "validatePostCreationRequest data = Inr v" and "valid v"
  shows "\<not> nullish data \<and> (\<exists>s. getProp data ''title'' = JStr s)
     \<and> \<not> nullish (getProp data ''meta'')
     \<and> (\<exists>bs. getProp data ''blocks'' = JArr bs \<and> (\<forall>b \<in> set bs. \<not> nullish b))
     \<and> (truthy (getProp data ''heroImage'') \<longrightarrow> getProp data ''heroImage'' = JBool True)"
proof -
  from validate_Inr_nonnull [OF assms(1)] have
    nn: "\<not> nullish data" "\<forall>b \<in> set (elems (getProp data ''blocks'')). \<not> nullish b" by auto
  from validate_errors_all [OF nn] assms(1) obtain t bl where
    r: "valid v = (errors v = [])" "checkTitle data [] = Inr t" "checkBlocks data [] = Inr bl"
       "errors v = t @ checkMeta data [] @ bl @ checkSlug data []
                   @ checkCategories data [] @ checkHeroImage data []"
    by auto
  from r(1,4) assms(2) have e: "t = []" "checkMeta data [] = []" "bl = []"
    "checkHeroImage data [] = []" by auto
  show ?thesis
    using nn(1) checkTitle_empty [of data] checkMeta_empty [of data] checkBlocks_empty [of data]
      checkHeroImage_empty [of data] r(2,3) e by blast
qed

lemma process_shape:
  assumes "\<not> nullish data" and "getProp data ''title'' = JStr s"
    and "\<not> nullish (getProp data ''meta'')"
    and "getProp data ''blocks'' = JArr bs" and "\<forall>b \<in> set bs. \<not> nullish b"
  shows "\<exists>nodes n'. processPostCreationRequest gen n data =
      Inr (\<lparr>pd_slug = (if truthy (getProp data ''slug'') then getProp data ''slug''
                        else JStr (generateSlug s)),
            pd_status = ''draft'',
            pd_title = JStr s,
            pd_content = Root nodes,
            pd_meta = \<lparr>meta_title = getProp (getProp data ''meta'') ''title'',
                        meta_description = getProp (getProp data ''meta'') ''description'',
                        meta_image = None\<rparr>,
            pd_heroImage = (if truthy (getProp data ''heroImage'') then Some ''random'' else None),
            pd_relatedPosts = [],
            pd_authors = None,
            pd_categories = None\<rparr>, n')
     \<and> length nodes = length bs"
proof -
  from convertBlocks_ok [OF assms(5), of gen n] obtain nodes n' where
    c: "convertBlocksToLexical gen n (JArr bs) = Inr (Root nodes, n')" "length nodes = length bs"
    by blast
  show ?thesis
    using assms(1-4) c
    by (simp add: processPostCreationRequest_def bindE_def get_Inr Let_def generateSlugOf_def)
qed

lemma process_status:
  "processPostCreationRequest gen n data = Inr (pd, n') \<Longrightarrow> pd_status pd = ''draft''"
  by (auto simp: processPostCreationRequest_def bindE_def Let_def split: sum.splits if_splits)

lemma validate_heroRequest:
  "validatePostCreationRequest heroRequest = Inr \<lparr>valid = True, errors = []\<rparr>"
  by code_simp

lemma process_heroRequest:
  "processPostCreationRequest exampleIds 0 heroRequest = Inr (heroSubmission, 1)"
  by code_simp

lemma heroRequest_flag: "getProp heroRequest ''heroImage'' = JBool True"
  by (simp add: heroRequest_def)

lemma process_hero_fields:
  assumes "\<not> nullish data" and "getProp data ''title'' = JStr s"
    and "\<not> nullish (getProp data ''meta'')"
    and "getProp data ''blocks'' = JArr bs" and "\<forall>b \<in> set bs. \<not> nullish b"
  shows "\<exists>pd n'. processPostCreationRequest gen n data = Inr (pd, n')
     \<and> meta_image (pd_meta pd) = None
     \<and> pd_heroImage pd = (if truthy (getProp data ''heroImage'') then Some ''random'' else None)"
proof -
  from convertBlocks_ok [OF assms(5), of gen n] obtain nodes n' where
    c: "convertBlocksToLexical gen n (JArr bs) = Inr (Root nodes, n')"
    by blast
  show ?thesis
    using assms(1-4) c
    by (simp add: processPostCreationRequest_def bindE_def get_Inr Let_def generateSlugOf_def)
qed

section \<open>Enrichment and the orchestrator\<close>

lemma addAuthor_keeps:
  "pd_status (addAuthor a pd) = pd_status pd \<and> pd_content (addAuthor a pd) = pd_content pd"
  by (simp add: addAuthor_def)

lemma addHeroImage_keeps:
  "pd_status (addHeroImage h pd) = pd_status pd \<and> pd_content (addHeroImage h pd) = pd_content pd"
  by (simp add: addHeroImage_def)

lemma processMediaBlocks_status:
  "pd_status (fst (fst (processMediaBlocks c pd w))) = pd_status pd"
  by (simp add: processMediaBlocks_def split: prod.splits)

lemma walk_fst:
  "fst (case X of ((e3, x), w3) \<Rightarrow> (e3, w3)) = fst (fst X)"
  by (simp split: prod.splits)

lemma enhance_cases:
  "\<exists>a h w'. fst (enhancePostDataFromJSON c pd request w) = pd
     \<or> fst (enhancePostDataFromJSON c pd request w) = addAuthor a pd
     \<or> fst (enhancePostDataFromJSON c pd request w)
          = fst (fst (processMediaBlocks c (addAuthor a pd) w'))
     \<or> fst (enhancePostDataFromJSON c pd request w)
          = fst (fst (processMediaBlocks c (addHeroImage h (addAuthor a pd)) w'))"
proof -
  obtain ra w1 where a: "getDefaultAuthor c w = (ra, w1)" by (metis surj_pair)
  show ?thesis
  proof (cases ra)
    case (Inl e)
    then show ?thesis using a by (simp add: enhancePostDataFromJSON_def)
  next
    case (Inr authorId)
    note ra = Inr
    show ?thesis
    proof (cases "get request ''heroImage''")
      case (Inl e)
      then have "fst (enhancePostDataFromJSON c pd request w) = addAuthor authorId pd"
        using a ra by (simp add: enhancePostDataFromJSON_def)
      then show ?thesis by blast
    next
      case (Inr heroImage)
      note hi = Inr
      show ?thesis
      proof (cases "truthy heroImage")
        case False
        then have "fst (enhancePostDataFromJSON c pd request w)
            = fst (fst (processMediaBlocks c (addAuthor authorId pd) w1))"
          using a ra hi by (simp add: enhancePostDataFromJSON_def walk_fst)
        then show ?thesis by blast
      next
        case True
        obtain rh w2 where h: "getRandomHeroImage c w1 = (rh, w2)" by (metis surj_pair)
        show ?thesis
        proof (cases rh)
          case (Inl e)
          then have "fst (enhancePostDataFromJSON c pd request w) = addAuthor authorId pd"
            using a ra hi True h by (simp add: enhancePostDataFromJSON_def)
          then show ?thesis by blast
        next
          case (Inr heroImageId)
          then have "fst (enhancePostDataFromJSON c pd request w)
              = fst (fst (processMediaBlocks c (addHeroImage heroImageId (addAuthor authorId pd)) w2))"
            using a ra hi True h by (simp add: enhancePostDataFromJSON_def walk_fst)
          then show ?thesis by blast
        qed
      qed
    qed
  qed
qed

lemma enhance_status:
  "pd_status (fst (enhancePostDataFromJSON c pd request w)) = pd_status pd"
  using enhance_cases [of c pd request w]
  by (auto simp: processMediaBlocks_status addAuthor_keeps addHeroImage_keeps)

lemma processBlocks_Cons_nodes:
  "fst (fst (processBlocks c (b # bs) w)) =
     fst (fst (processBlock c b w)) # fst (fst (processBlocks c bs (snd (processBlock c b w))))"
  by (simp split: prod.splits)

lemma processBlocks_Cons_world:
  "snd (processBlocks c (b # bs) w) = snd (processBlocks c bs (snd (processBlock c b w)))"
  by (simp split: prod.splits)

lemma processBlocks_length:
  "length (fst (fst (processBlocks c nodes w))) = length nodes"
proof (induction nodes arbitrary: w)
  case Nil
  then show ?case by simp
next
  case (Cons b bs)
  then show ?case by (simp only: processBlocks_Cons_nodes) simp
qed

lemma processBlock_media_unresolved:
  assumes "\<forall>m. fst (getRandomHeroImage c w) = Inr m \<longrightarrow> \<not> truthyId m"
  shows "fst (fst (processBlock c (MediaBlockNode ''random'' bid) w)) = MediaBlockNode ''random'' bid"
proof -
  obtain r w' where g: "getRandomHeroImage c w = (r, w')" by (metis surj_pair)
  show ?thesis
  proof (cases r)
    case (Inl e)
    then show ?thesis using g by simp
  next
    case (Inr m)
    then have "\<not> truthyId m" using assms g by simp
    then show ?thesis using g Inr by simp
  qed
qed

lemma processBlock_media_resolved:
  assumes "getRandomHeroImage c w = (Inr (Some m), w')" and "m \<noteq> []"
  shows "fst (fst (processBlock c (MediaBlockNode ''random'' bid) w)) = MediaBlockNode m bid"
  using assms by simp

lemma processBlocks_unresolved:
  "i < length nodes \<Longrightarrow> nodes ! i = MediaBlockNode ''random'' bid
   \<Longrightarrow> \<forall>m. fst (getRandomHeroImage c (snd (processBlocks c (take i nodes) w))) = Inr m
            \<longrightarrow> \<not> truthyId m
   \<Longrightarrow> fst (fst (processBlocks c nodes w)) ! i = MediaBlockNode ''random'' bid"
proof (induction nodes arbitrary: i w)
  case Nil
  then show ?case by simp
next
  case (Cons b bs)
  show ?case
  proof (cases i)
    case 0
    then have b: "b = MediaBlockNode ''random'' bid" using Cons.prems by simp
    have "\<forall>m. fst (getRandomHeroImage c w) = Inr m \<longrightarrow> \<not> truthyId m"
      using Cons.prems(3) 0 by simp
    then have "fst (fst (processBlock c b w)) = MediaBlockNode ''random'' bid"
      unfolding b by (rule processBlock_media_unresolved)
    then show ?thesis using 0 by (simp only: processBlocks_Cons_nodes) simp
  next
    case (Suc j)
    let ?w1 = "snd (processBlock c b w)"
    have t: "snd (processBlocks c (take i (b # bs)) w) = snd (processBlocks c (take j bs) ?w1)"
      using Suc by (simp only: take_Suc_Cons processBlocks_Cons_world)
    have "fst (fst (processBlocks c bs ?w1)) ! j = MediaBlockNode ''random'' bid"
      using Cons.IH [of j ?w1] Cons.prems Suc t by simp
    then show ?thesis using Suc by (simp only: processBlocks_Cons_nodes) simp
  qed
qed

lemma processBlocks_resolved:
  "i < length nodes \<Longrightarrow> nodes ! i = MediaBlockNode ''random'' bid
   \<Longrightarrow> fst (getRandomHeroImage c (snd (processBlocks c (take i nodes) w))) = Inr (Some m)
   \<Longrightarrow> m \<noteq> []
   \<Longrightarrow> fst (fst (processBlocks c nodes w)) ! i = MediaBlockNode m bid"
proof (induction nodes arbitrary: i w)
  case Nil
  then show ?case by simp
next
  case (Cons b bs)
  show ?case
  proof (cases i)
    case 0
    then have b: "b = MediaBlockNode ''random'' bid" using Cons.prems by simp
    have "fst (getRandomHeroImage c w) = Inr (Some m)" using Cons.prems(3) 0 by simp
    then obtain w' where "getRandomHeroImage c w = (Inr (Some m), w')" by (metis prod.collapse)
    then have "fst (fst (processBlock c b w)) = MediaBlockNode m bid"
      unfolding b using Cons.prems(4) by (rule processBlock_media_resolved)
    then show ?thesis using 0 by (simp only: processBlocks_Cons_nodes) simp
  next
    case (Suc j)
    let ?w1 = "snd (processBlock c b w)"
    have t: "snd (processBlocks c (take i (b # bs)) w) = snd (processBlocks c (take j bs) ?w1)"
      using Suc by (simp only: take_Suc_Cons processBlocks_Cons_world)
    have "fst (fst (processBlocks c bs ?w1)) ! j = MediaBlockNode m bid"
      using Cons.IH [of j ?w1] Cons.prems Suc t by simp
    then show ?thesis using Suc by (simp only: processBlocks_Cons_nodes) simp
  qed
qed

lemma processMediaBlocks_children:
  "children (pd_content (fst (fst (processMediaBlocks c p w))))
     = fst (fst (processBlocks c (children (pd_content p)) w))"
  by (simp add: processMediaBlocks_def split: prod.splits)

lemma processMediaBlocks_length:
  "length (children (pd_content (fst (fst (processMediaBlocks c p w)))))
     = length (children (pd_content p))"
  by (simp add: processMediaBlocks_children processBlocks_length)

lemma enhance_content_length:
  "length (children (pd_content (fst (enhancePostDataFromJSON c pd request w))))
     = length (children (pd_content pd))"
  using enhance_cases [of c pd request w]
  by (auto simp: processMediaBlocks_length addAuthor_keeps addHeroImage_keeps)

text \<open>
  Where the walk starts: after the author and, when a hero image is requested, the hero
  image have been resolved. When one of these two throws, no walk is made and the content
  is the compiled one.
\<close>

lemma enhance_walk:
  assumes "ws = (if truthy (getProp request ''heroImage'')
                 then snd (getRandomHeroImage c (snd (getDefaultAuthor c w)))
                 else snd (getDefaultAuthor c w))"
  shows "pd_content (fst (enhancePostDataFromJSON c pd request w)) = pd_content pd
     \<or> children (pd_content (fst (enhancePostDataFromJSON c pd request w)))
          = fst (fst (processBlocks c (children (pd_content pd)) ws))"
proof -
  obtain ra w1 where a: "getDefaultAuthor c w = (ra, w1)" by (metis surj_pair)
  show ?thesis
  proof (cases ra)
    case (Inl e)
    then show ?thesis using a by (simp add: enhancePostDataFromJSON_def)
  next
    case (Inr authorId)
    note ra = Inr
    show ?thesis
    proof (cases "get request ''heroImage''")
      case (Inl e)
      then show ?thesis using a ra by (simp add: enhancePostDataFromJSON_def addAuthor_keeps)
    next
      case (Inr heroImage)
      then have hi: "heroImage = getProp request ''heroImage''"
        by (simp add: get_Inr_iff)
      note g = Inr
      show ?thesis
      proof (cases "truthy heroImage")
        case False
        then have "ws = w1" using assms hi a by simp
        moreover have "fst (enhancePostDataFromJSON c pd request w)
            = fst (fst (processMediaBlocks c (addAuthor authorId pd) w1))"
          using a ra g False by (simp add: enhancePostDataFromJSON_def walk_fst)
        ultimately show ?thesis
          by (simp add: processMediaBlocks_children addAuthor_keeps)
      next
        case True
        obtain rh w2 where h: "getRandomHeroImage c w1 = (rh, w2)" by (metis surj_pair)
        show ?thesis
        proof (cases rh)
          case (Inl e)
          then show ?thesis
            using a ra g True h by (simp add: enhancePostDataFromJSON_def addAuthor_keeps)
        next
          case (Inr heroImageId)
          have "ws = w2" using assms hi a h True by simp
          moreover have "fst (enhancePostDataFromJSON c pd request w)
              = fst (fst (processMediaBlocks c (addHeroImage heroImageId (addAuthor authorId pd)) w2))"
            using a ra g True h Inr by (simp add: enhancePostDataFromJSON_def walk_fst)
          ultimately show ?thesis
            by (simp add: processMediaBlocks_children addAuthor_keeps addHeroImage_keeps)
        qed
      qed
    qed
  qed
qed

lemma createPostFromJSON_submits:
  assumes "validatePostCreationRequest request = Inr v" and "valid v"
    and "testConnection c w = (Inr True, w1)"
    and "processPostCreationRequest gen n request = Inr (pd, n')"
    and "enhancePostDataFromJSON c pd request w1 = (enh, w2)"
  shows "createPostFromJSON c gen n request w =
     (case createPost c enh w2 of
        (Inl e, w3) \<Rightarrow> (Inr (Failure (errorMessage e) (errorDetails e)), w3)
      | (Inr None, w3) \<Rightarrow>
          (Inr (Failure (Text ''Failed to create post'')
             (Text ''Post creation returned null - check PayloadCMS logs for details'')), w3)
      | (Inr (Some createdPost), w3) \<Rightarrow>
          (Inr (Success (post_id createdPost) (post_slug createdPost) (post_title createdPost)
                  (getAdminUrl c (post_id createdPost))
                  (getPublicUrl c (post_slug createdPost))), w3))"
proof -
  obtain r w3 where p: "createPost c enh w2 = (r, w3)" by (metis surj_pair)
  show ?thesis
    using assms p
    by (cases r) (simp_all add: createPostFromJSON_def createPostFromJSON_try_def split: option.splits)
qed

lemma walk_flakyClient:
  "processBlocks flakyClient threeMediaNodes (0, []) =
     (([MediaBlockNode ''random'' ''a'', MediaBlockNode ''random'' ''b'',
        MediaBlockNode ''bbbbbbbbbbbbbbbbbbbbbbbb'' ''c''],
       Some (TypeError (JNum 5) ''filter'')), (3, []))"
  by code_simp

lemma create_threeMedia_flaky:
  "createPostFromJSON flakyClient exampleIds 0 threeMediaRequest (0, []) =
     (Inr (Success ''p1'' ''slug'' ''title''
             ''http://localhost:3000/admin/collections/posts/p1''
             ''http://localhost:3000/posts/slug''),
      (3, [threeMediaSubmitted]))"
  by code_simp

lemma createPostFromJSON_returns:
  "\<exists>r. fst (createPostFromJSON c gen n raw w) = Inr r"
  by (cases "createPostFromJSON_try c gen n raw w")
     (auto simp: createPostFromJSON_def split: sum.splits)

lemma try_not_success:
  assumes "\<forall>pd w'. \<exists>e. fst (createPost c pd w') = Inl e"
  shows "fst (createPostFromJSON_try c gen n raw w) \<noteq> Inr (Success a b t u v)"
  unfolding createPostFromJSON_try_def
  using assms
  by (auto split: sum.splits prod.splits option.splits if_splits) (metis fst_conv sum.distinct(1))

lemma createPostFromJSON_Success:
  "fst (createPostFromJSON c gen n raw w) = Inr (Success a b t u v)
   \<Longrightarrow> fst (createPostFromJSON_try c gen n raw w) = Inr (Success a b t u v)"
  by (cases "createPostFromJSON_try c gen n raw w")
     (auto simp: createPostFromJSON_def split: sum.splits)

lemma createPost_failing:
  "fst (createPostFromJSON failingClient exampleIds 0 simpleRequest ()) =
     Inr (Failure (Text ''API request failed: 500'') (StackOf (Error ''API request failed: 500'')))"
  by code_simp

lemma createPostFromJSON_null:
  "fst (createPostFromJSON c gen n JNull w) =
     Inr (Failure (MessageOf (TypeError JNull ''title'')) (StackOf (TypeError JNull ''title'')))"
  by (simp add: createPostFromJSON_def createPostFromJSON_try_def validatePostCreationRequest_def
      checkTitle_def get_def bindE_def)

lemma create_heroRequest_recorded:
  "createPostFromJSON recordingClient exampleIds 0 heroRequest [] =
     (Inr (Success ''p0'' ''slug'' ''title''
             ''http://localhost:3000/admin/collections/posts/p0''
             ''http://localhost:3000/posts/slug''),
      [heroSubmission])"
  by code_simp

section \<open>Status, hero image, exceptions and placeholders\<close>

text \<open>
  Claim C1. For every request that validation accepts, compilation returns a submission
  whose status is exactly "draft", and enrichment, whatever the client answers or throws,
  leaves that status as it is: no step sets another status value.
\<close>

theorem compiled_status_is_draft:
  assumes "validatePostCreationRequest data = Inr v" and "valid v"
  shows "\<exists>pd n'. processPostCreationRequest gen n data = Inr (pd, n')
     \<and> pd_status pd = ''draft''
     \<and> pd_status (fst (enhancePostDataFromJSON c pd data w)) = ''draft''"
proof -
  from valid_request_shape [OF assms] obtain s bs where
    sh: "\<not> nullish data" "getProp data ''title'' = JStr s" "\<not> nullish (getProp data ''meta'')"
        "getProp data ''blocks'' = JArr bs" "\<forall>b \<in> set bs. \<not> nullish b"
    by blast
  from process_shape [OF sh, of gen n] obtain pd n' where
    p: "processPostCreationRequest gen n data = Inr (pd, n')" by blast
  have "pd_status pd = ''draft''" using p by (rule process_status)
  then show ?thesis using p by (simp add: enhance_status)
qed

theorem compiled_status_is_draft_witness:
  "validatePostCreationRequest heroRequest = Inr \<lparr>valid = True, errors = []\<rparr>
   \<and> valid \<lparr>valid = True, errors = []\<rparr>
   \<and> (\<exists>pd n'. processPostCreationRequest exampleIds 0 heroRequest = Inr (pd, n')
        \<and> pd_status pd = ''draft''
        \<and> pd_status (fst (enhancePostDataFromJSON recordingClient pd heroRequest [])) = ''draft'')"
  using compiled_status_is_draft [OF validate_heroRequest, of exampleIds 0 recordingClient "[]"]
    validate_heroRequest
  by simp

text \<open>
  Claim C5, as stated, at a validated request whose heroImage flag is true: the compiled
  submission has the placeholder marker in \<^verbatim>\<open>heroImage\<close>, but \<^verbatim>\<open>meta.image\<close> is not
  populated.
\<close>

theorem heroImage_true_meta_image_absent:
  "validatePostCreationRequest heroRequest = Inr \<lparr>valid = True, errors = []\<rparr>
   \<and> getProp heroRequest ''heroImage'' = JBool True
   \<and> processPostCreationRequest exampleIds 0 heroRequest = Inr (heroSubmission, 1)
   \<and> pd_heroImage heroSubmission = Some ''random''
   \<and> meta_image (pd_meta heroSubmission) = None"
  using validate_heroRequest process_heroRequest heroRequest_flag
  by (simp add: heroSubmission_def)

text \<open>
  Claim C5, amended. For every validated request, the submission compiled by
  \<^verbatim>\<open>processPostCreationRequest\<close> has the placeholder marker "random" in \<^verbatim>\<open>heroImage\<close>
  when the request's heroImage flag is true and no \<^verbatim>\<open>heroImage\<close> when the flag is
  false or absent; \<^verbatim>\<open>meta.image\<close> is omitted in both cases (compilation builds
  \<^verbatim>\<open>meta\<close> from the title and the description only).
\<close>

theorem heroImage_placeholder_only:
  assumes "validatePostCreationRequest data = Inr v" and "valid v"
  shows "\<exists>pd n'. processPostCreationRequest gen n data = Inr (pd, n')
     \<and> meta_image (pd_meta pd) = None
     \<and> (getProp data ''heroImage'' = JBool True \<longrightarrow> pd_heroImage pd = Some ''random'')
     \<and> (getProp data ''heroImage'' \<noteq> JBool True \<longrightarrow> pd_heroImage pd = None)"
proof -
  from valid_request_shape [OF assms] obtain s bs where
    sh: "\<not> nullish data" "getProp data ''title'' = JStr s" "\<not> nullish (getProp data ''meta'')"
        "getProp data ''blocks'' = JArr bs" "\<forall>b \<in> set bs. \<not> nullish b"
    and h: "truthy (getProp data ''heroImage'') \<longrightarrow> getProp data ''heroImage'' = JBool True"
    by blast
  from process_hero_fields [OF sh, of gen n] obtain pd n' where
    p: "processPostCreationRequest gen n data = Inr (pd, n')"
       "meta_image (pd_meta pd) = None"
       "pd_heroImage pd = (if truthy (getProp data ''heroImage'') then Some ''random'' else None)"
    by blast
  have t: "getProp data ''heroImage'' = JBool True \<longrightarrow> pd_heroImage pd = Some ''random''"
    using p(3) by simp
  have f: "getProp data ''heroImage'' \<noteq> JBool True \<longrightarrow> pd_heroImage pd = None"
    using p(3) h by auto
  show ?thesis using p(1,2) t f by blast
qed

theorem heroImage_placeholder_only_witness:
  "validatePostCreationRequest heroRequest = Inr \<lparr>valid = True, errors = []\<rparr>
   \<and> valid \<lparr>valid = True, errors = []\<rparr>
   \<and> getProp heroRequest ''heroImage'' = JBool True
   \<and> (\<exists>pd n'. processPostCreationRequest exampleIds 0 heroRequest = Inr (pd, n')
        \<and> meta_image (pd_meta pd) = None \<and> pd_heroImage pd = Some ''random'')"
  using heroImage_placeholder_only [OF validate_heroRequest, of exampleIds 0]
    validate_heroRequest heroRequest_flag
  by auto

text \<open>
  Claim C2. For every raw input and every behaviour of the client, \<^verbatim>\<open>createPostFromJSON\<close>
  returns a result object and lets no exception out; in particular, with a client whose
  \<^verbatim>\<open>createPost\<close> throws, the result is a failure with an error and details.
\<close>

theorem createPostFromJSON_never_throws:
  "(\<exists>r. fst (createPostFromJSON c gen n raw w) = Inr r)
   \<and> ((\<forall>pd w'. \<exists>e. fst (createPost c pd w') = Inl e)
        \<longrightarrow> (\<exists>err det. fst (createPostFromJSON c gen n raw w) = Inr (Failure err det)))"
proof (intro conjI impI)
  show "\<exists>r. fst (createPostFromJSON c gen n raw w) = Inr r"
    by (rule createPostFromJSON_returns)
next
  assume f: "\<forall>pd w'. \<exists>e. fst (createPost c pd w') = Inl e"
  obtain r where r: "fst (createPostFromJSON c gen n raw w) = Inr r"
    using createPostFromJSON_returns [of c gen n raw w] by blast
  show "\<exists>err det. fst (createPostFromJSON c gen n raw w) = Inr (Failure err det)"
  proof (cases r)
    case (Success a b t u v)
    then have "fst (createPostFromJSON_try c gen n raw w) = Inr (Success a b t u v)"
      using r by (simp add: createPostFromJSON_Success)
    then show ?thesis using try_not_success [OF f] by blast
  next
    case (Failure err det)
    then show ?thesis using r by blast
  qed
qed

theorem createPostFromJSON_never_throws_witness:
  "(\<forall>pd w'. \<exists>e. fst (createPost failingClient pd w') = Inl e)
   \<and> (\<exists>err det. fst (createPostFromJSON failingClient exampleIds 0 simpleRequest ())
                    = Inr (Failure err det))"
  using createPostFromJSON_never_throws [of failingClient exampleIds 0 simpleRequest "()"]
  by (simp add: failingClient_def)

text \<open>
  Claim C9. During enrichment a mediaBlock node whose own resolution yields no valid id
  (it finds nothing, or throws) keeps its placeholder marker, whatever its siblings'
  resolutions do; no node is removed; and the submission proceeds with that node as it
  is: \<^verbatim>\<open>createPostFromJSON\<close> hands the enhanced post data to \<^verbatim>\<open>createPost\<close> and its
  result is the outcome of that call alone, so the failed resolution is not surfaced.
  The resolution of the node at position \<open>i\<close> is the call of \<^verbatim>\<open>getRandomHeroImage\<close> made
  after those of the siblings before it, in a walk that starts once the author and the
  hero image have been resolved.
\<close>

theorem unresolved_media_placeholder_submitted:
  assumes "validatePostCreationRequest request = Inr v" and "valid v"
    and "testConnection c w = (Inr True, w1)"
    and "processPostCreationRequest gen n request = Inr (pd, n')"
    and "i < length (children (pd_content pd))"
    and "children (pd_content pd) ! i = MediaBlockNode ''random'' bid"
    and "ws = (if truthy (getProp request ''heroImage'')
               then snd (getRandomHeroImage c (snd (getDefaultAuthor c w1)))
               else snd (getDefaultAuthor c w1))"
    and "\<forall>mediaId.
           fst (getRandomHeroImage c (snd (processBlocks c (take i (children (pd_content pd))) ws)))
             = Inr mediaId \<longrightarrow> \<not> truthyId mediaId"
  shows "\<exists>enh w2. enhancePostDataFromJSON c pd request w1 = (enh, w2)
     \<and> length (children (pd_content enh)) = length (children (pd_content pd))
     \<and> children (pd_content enh) ! i = MediaBlockNode ''random'' bid
     \<and> createPostFromJSON c gen n request w =
         (case createPost c enh w2 of
            (Inl e, w3) \<Rightarrow> (Inr (Failure (errorMessage e) (errorDetails e)), w3)
          | (Inr None, w3) \<Rightarrow>
              (Inr (Failure (Text ''Failed to create post'')
                 (Text ''Post creation returned null - check PayloadCMS logs for details'')), w3)
          | (Inr (Some createdPost), w3) \<Rightarrow>
              (Inr (Success (post_id createdPost) (post_slug createdPost) (post_title createdPost)
                      (getAdminUrl c (post_id createdPost))
                      (getPublicUrl c (post_slug createdPost))), w3))"
proof -
  obtain enh w2 where e: "enhancePostDataFromJSON c pd request w1 = (enh, w2)"
    by (metis surj_pair)
  have len: "length (children (pd_content enh)) = length (children (pd_content pd))"
    using enhance_content_length [of c pd request w1] e by simp
  have kept: "fst (fst (processBlocks c (children (pd_content pd)) ws)) ! i
                = MediaBlockNode ''random'' bid"
    using assms(5,6,8) by (rule processBlocks_unresolved)
  have node: "children (pd_content enh) ! i = MediaBlockNode ''random'' bid"
    using enhance_walk [OF assms(7), of pd] e kept assms(6) by auto
  show ?thesis
    using e len node createPostFromJSON_submits [OF assms(1-4) e] by blast
qed

theorem unresolved_media_placeholder_submitted_witness:
  "validatePostCreationRequest threeMediaRequest = Inr \<lparr>valid = True, errors = []\<rparr>
   \<and> testConnection flakyClient (0, []) = (Inr True, (0, []))
   \<and> processPostCreationRequest exampleIds 0 threeMediaRequest = Inr (threeMediaCompiled, 3)
   \<and> children (pd_content threeMediaCompiled) ! 1 = MediaBlockNode ''random'' ''id1''
   \<and> snd (processBlocks flakyClient (take 1 (children (pd_content threeMediaCompiled))) (0, []))
        = (1, [])
   \<and> fst (getRandomHeroImage flakyClient (1, [])) = Inr None
   \<and> (\<exists>enh w2.
         enhancePostDataFromJSON flakyClient threeMediaCompiled threeMediaRequest (0, []) = (enh, w2)
         \<and> length (children (pd_content enh)) = length (children (pd_content threeMediaCompiled))
         \<and> children (pd_content enh) ! 1 = MediaBlockNode ''random'' ''id1'')"
proof -
  have v: "validatePostCreationRequest threeMediaRequest = Inr \<lparr>valid = True, errors = []\<rparr>"
    by code_simp
  have ok: "valid \<lparr>valid = True, errors = []\<rparr>" by simp
  have t: "testConnection flakyClient (0, []) = (Inr True, (0, []))"
    by (simp add: flakyClient_def)
  have p: "processPostCreationRequest exampleIds 0 threeMediaRequest = Inr (threeMediaCompiled, 3)"
    by code_simp
  have l: "1 < length (children (pd_content threeMediaCompiled))"
    by (simp add: threeMediaCompiled_def)
  have nd: "children (pd_content threeMediaCompiled) ! 1 = MediaBlockNode ''random'' ''id1''"
    by (simp add: threeMediaCompiled_def)
  have ws: "(0, []) = (if truthy (getProp threeMediaRequest ''heroImage'')
               then snd (getRandomHeroImage flakyClient (snd (getDefaultAuthor flakyClient (0, []))))
               else snd (getDefaultAuthor flakyClient (0, [])))"
    by code_simp
  have w1: "snd (processBlocks flakyClient (take 1 (children (pd_content threeMediaCompiled))) (0, []))
        = (1, [])"
    by code_simp
  have g: "fst (getRandomHeroImage flakyClient (1, [])) = Inr None"
    by code_simp
  have r: "\<forall>mediaId.
           fst (getRandomHeroImage flakyClient
                 (snd (processBlocks flakyClient (take 1 (children (pd_content threeMediaCompiled)))
                        (0, []))))
             = Inr mediaId \<longrightarrow> \<not> truthyId mediaId"
    unfolding w1 g by simp
  from unresolved_media_placeholder_submitted [OF v ok t p l nd ws r]
  have "\<exists>enh w2.
         enhancePostDataFromJSON flakyClient threeMediaCompiled threeMediaRequest (0, []) = (enh, w2)
         \<and> length (children (pd_content enh)) = length (children (pd_content threeMediaCompiled))
         \<and> children (pd_content enh) ! 1 = MediaBlockNode ''random'' ''id1''"
    by blast
  then show ?thesis using v t p nd w1 g by blast
qed

end
